theory Spec2Isabelle
  imports Main "HOL-Library.Sublist"
begin

section \<open>Python values and exceptions\<close>

text \<open>
  The script \<^verbatim>\<open>scripts/events-consumer.py\<close> handles untyped values: whatever
  \<^verbatim>\<open>json.loads\<close> and \<^verbatim>\<open>yaml.safe_load\<close> return. A dictionary is kept as the list
  of its items, read with \<^const>\<open>map_of\<close>; \<^verbatim>\<open>None\<close> is \<open>PNone\<close>. A float is
  carried as its literal.
\<close>

datatype pyval =
    PNone
  | PBool bool
  | PInt int
  | PFloat string
  | PStr string
  | PList "pyval list"
  | PDict "(string \<times> pyval) list"

text \<open>
  The exceptions the script can meet. \<open>KeyboardInterrupt\<close> is the one that is not an
  \<^verbatim>\<open>Exception\<close> (it derives from \<^verbatim>\<open>BaseException\<close>), so \<^verbatim>\<open>except Exception\<close>
  lets it through.
\<close>

datatype exn =
    JSONDecodeError
  | KeyError string
  | TypeError
  | AttributeError
  | UnicodeDecodeError
  | CalledProcessError string
  | YAMLError
  | OSError
  | OtherException string
  | KeyboardInterrupt

fun is_Exception :: "exn \<Rightarrow> bool" where
  "is_Exception KeyboardInterrupt = False"
| "is_Exception _ = True"

fun is_CalledProcessError :: "exn \<Rightarrow> bool" where
  "is_CalledProcessError (CalledProcessError _) = True"
| "is_CalledProcessError _ = False"

fun is_JSONDecodeError :: "exn \<Rightarrow> bool" where
  "is_JSONDecodeError JSONDecodeError = True"
| "is_JSONDecodeError _ = False"

fun is_KeyError :: "exn \<Rightarrow> bool" where
  "is_KeyError (KeyError _) = True"
| "is_KeyError _ = False"

text \<open>\<^verbatim>\<open>d.get(key, default)\<close> on a dictionary.\<close>

definition dict_get :: "(string \<times> pyval) list \<Rightarrow> string \<Rightarrow> pyval \<Rightarrow> pyval" where
  "dict_get d k dflt = (case map_of d k of None \<Rightarrow> dflt | Some v \<Rightarrow> v)"

text \<open>\<^verbatim>\<open>d.pop(key, None)\<close> on a dictionary: the key is gone, the other items stay.\<close>

definition dict_pop :: "string \<Rightarrow> (string \<times> pyval) list \<Rightarrow> (string \<times> pyval) list" where
  "dict_pop k d = filter (\<lambda>kv. fst kv \<noteq> k) d"

section \<open>Paths\<close>

text \<open>
  \<^verbatim>\<open>os.fspath\<close>: a path component must be a string; anything else raises
  \<^verbatim>\<open>TypeError\<close> (the values here come from JSON, so they are never bytes).
\<close>

fun fspath :: "pyval \<Rightarrow> exn + string" where
  "fspath (PStr s) = Inr s"
| "fspath _ = Inl TypeError"

text \<open>
  \<^verbatim>\<open>posixpath.join\<close>, one component at a time: an absolute component (or an empty
  path so far) restarts the path, a path that ends with the separator takes the
  component as it is, any other path takes the separator and the component.
\<close>

definition join2 :: "string \<Rightarrow> string \<Rightarrow> string" where
  "join2 path b =
     (if (b \<noteq> [] \<and> hd b = CHR ''/'') \<or> path = [] then b
      else if last path = CHR ''/'' then path @ b
      else path @ CHR ''/'' # b)"

fun fspaths :: "pyval list \<Rightarrow> exn + string list" where
  "fspaths [] = Inr []"
| "fspaths (v # vs) =
     (case fspath v of
        Inl e \<Rightarrow> Inl e
      | Inr s \<Rightarrow> (case fspaths vs of Inl e \<Rightarrow> Inl e | Inr ss \<Rightarrow> Inr (s # ss)))"

definition os_path_join :: "string \<Rightarrow> pyval list \<Rightarrow> exn + string" where
  "os_path_join a ps = (case fspaths ps of Inl e \<Rightarrow> Inl e | Inr ss \<Rightarrow> Inr (foldl join2 a ss))"

text \<open>
  \<^verbatim>\<open>posixpath.dirname\<close>: everything up to the last separator, without the trailing
  separators unless the head is made of separators only.
\<close>

definition dirname :: "string \<Rightarrow> string" where
  "dirname p =
     (let head = rev (dropWhile (\<lambda>c. c \<noteq> CHR ''/'') (rev p))
      in if head \<noteq> [] \<and> head \<noteq> replicate (length head) (CHR ''/'')
         then rev (dropWhile (\<lambda>c. c = CHR ''/'') (rev head))
         else head)"

text \<open>
  How the operating system reads a path string: it is cut at the separators; an empty
  segment and \<open>.\<close> stay where they are, \<open>..\<close> goes up, a name goes down. A relative
  path starts from the working directory. The model has no symbolic links, and \<open>..\<close>
  is taken lexically (as \<^verbatim>\<open>os.path.normpath\<close> does).
\<close>

fun split_sep :: "string \<Rightarrow> string list" where
  "split_sep [] = [[]]"
| "split_sep (c # cs) =
     (if c = CHR ''/'' then [] # split_sep cs
      else (case split_sep cs of [] \<Rightarrow> [[c]] | s # ss \<Rightarrow> (c # s) # ss))"

definition walk :: "string list \<Rightarrow> string \<Rightarrow> string list" where
  "walk acc s =
     (if s = [] \<or> s = ''.'' then acc
      else if s = ''..'' then butlast acc
      else acc @ [s])"

definition resolve :: "string \<Rightarrow> string \<Rightarrow> string list" where
  "resolve cwd p =
     (if p \<noteq> [] \<and> hd p = CHR ''/'' then foldl walk [] (split_sep p)
      else foldl walk [] (split_sep cwd @ split_sep p))"

text \<open>A path that ends with a separator or with \<open>.\<close> names a directory only.\<close>

definition wants_dir :: "string \<Rightarrow> bool" where
  "wants_dir p = (last (split_sep p) = [] \<or> last (split_sep p) = ''.'')"

section \<open>The file system\<close>

text \<open>
  The file system maps a resolved path to what is there: a directory or a regular file
  with its text. The root is always a directory.
\<close>

datatype node = Dir | File string

type_synonym filesys = "string list \<Rightarrow> node option"

definition is_dir :: "filesys \<Rightarrow> string list \<Rightarrow> bool" where
  "is_dir t p = (p = [] \<or> t p = Some Dir)"

definition is_file :: "filesys \<Rightarrow> string list \<Rightarrow> bool" where
  "is_file t p = (p \<noteq> [] \<and> (case t p of Some (File _) \<Rightarrow> True | _ \<Rightarrow> False))"

text \<open>\<^verbatim>\<open>os.path.exists(path)\<close>.\<close>

definition os_path_exists :: "filesys \<Rightarrow> string \<Rightarrow> string \<Rightarrow> bool" where
  "os_path_exists t cwd p =
     (let q = resolve cwd p
      in is_dir t q \<or> (is_file t q \<and> \<not> wants_dir p))"

text \<open>
  \<^verbatim>\<open>shutil.rmtree(path)\<close>: the directory and everything below it go; on anything that
  is not a directory it raises.
\<close>

definition rmtree :: "filesys \<Rightarrow> string \<Rightarrow> string \<Rightarrow> exn + filesys" where
  "rmtree t cwd p =
     (let q = resolve cwd p
      in if is_dir t q then Inr (\<lambda>r. if prefix q r then None else t r)
         else Inl OSError)"

text \<open>
  \<^verbatim>\<open>os.makedirs(path, exist_ok=True)\<close>: every missing directory on the way is made;
  a regular file on the way makes it raise.
\<close>

definition makedirs :: "filesys \<Rightarrow> string \<Rightarrow> string \<Rightarrow> exn + filesys" where
  "makedirs t cwd p =
     (let q = resolve cwd p
      in if list_ex (is_file t) (prefixes q) then Inl OSError
         else Inr (\<lambda>r. if r \<noteq> [] \<and> prefix r q \<and> t r = None then Some Dir else t r))"

text \<open>
  \<^verbatim>\<open>open(path, 'w')\<close> followed by writing the whole text: the parent must be a
  directory and the path must not be one (nor ask for one).
\<close>

definition write_text :: "filesys \<Rightarrow> string \<Rightarrow> string \<Rightarrow> string \<Rightarrow> exn + filesys" where
  "write_text t cwd p txt =
     (let q = resolve cwd p
      in if q = [] \<or> wants_dir p \<or> is_dir t q \<or> \<not> is_dir t (butlast q) then Inl OSError
         else Inr (t(q \<mapsto> File txt)))"

section \<open>The world outside the script\<close>

text \<open>
  What the script prints, one constructor for each \<^verbatim>\<open>print\<close> of the source, with the
  values it formats.
\<close>

datatype logline =
    LogKafkaError int
  | LogErrorDecoding exn
  | LogVersionCreated pyval pyval pyval
  | LogVersionEnabled pyval pyval pyval
  | LogSkipping pyval pyval
  | LogArtifactDeleted pyval pyval
  | LogVersionDeleted pyval pyval pyval
  | LogOtherEvent pyval pyval pyval
  | LogFailedToDecode exn
  | LogMissingKey exn
  | LogFailedToRetrieve pyval pyval exn
  | LogDeletedArtifactDirectory string
  | LogArtifactDirectoryMissing string
  | LogDeletedDirectory string
  | LogDirectoryMissing string
  | LogSaved string
  | LogErrorGenerating exn
  | LogNoMessagesLeft
  | LogPushed
  | LogErrorPushing exn

text \<open>What the registry hands out as the content of a version, and its states.\<close>

datatype content = CBytes string | CStr string | CNone

datatype version_state = ENABLED | DISABLED | DEPRECATED | DRAFT

text \<open>
  The calls that leave the process, in the order they are made: polling and closing
  the Kafka consumer, the two registry requests, every \<^verbatim>\<open>subprocess.run\<close> with its
  arguments and its standard input, and every printed line.
\<close>

datatype event =
    Print logline
  | ConsumerConsume int int
  | ConsumerClose
  | RegistryContent string pyval pyval pyval
  | RegistryState string pyval pyval pyval
  | SubprocessRun "string list" "string option"

text \<open>
  The libraries and services the script calls are parameters: the working directory,
  \<^verbatim>\<open>bytes.decode('utf-8')\<close> and \<^verbatim>\<open>json.loads\<close> (\<open>None\<close> when they raise
  \<^verbatim>\<open>UnicodeDecodeError\<close> and \<^verbatim>\<open>JSONDecodeError\<close>), the two registry requests,
  \<^verbatim>\<open>subprocess.run(..., check=True)\<close> (a non-zero exit is \<open>CalledProcessError\<close> with
  the captured standard error, a normal exit gives the standard output),
  \<^verbatim>\<open>yaml.safe_load\<close> and \<^verbatim>\<open>yaml.dump\<close>.
\<close>

record env =
  getcwd :: string
  bytes_decode :: "string \<Rightarrow> string option"
  json_loads :: "string \<Rightarrow> pyval option"
  registry_content :: "string \<Rightarrow> pyval \<Rightarrow> pyval \<Rightarrow> pyval \<Rightarrow> exn + content"
  registry_state :: "string \<Rightarrow> pyval \<Rightarrow> pyval \<Rightarrow> pyval \<Rightarrow> exn + version_state"
  subprocess_run :: "string list \<Rightarrow> string option \<Rightarrow> exn + string"
  yaml_safe_load :: "string \<Rightarrow> exn + pyval"
  yaml_dump :: "pyval \<Rightarrow> string"

text \<open>The state the script changes: the file system and the calls made so far.\<close>

record world =
  fs :: filesys
  trace :: "event list"

definition emit :: "event \<Rightarrow> world \<Rightarrow> world" where
  "emit e w = w\<lparr>trace := trace w @ [e]\<rparr>"

text \<open>A Kafka message: \<^verbatim>\<open>msg.error()\<close> (the error code, if any) and \<^verbatim>\<open>msg.value()\<close>.\<close>

record msg =
  msg_error :: "int option"
  msg_value :: "string option"

definition PARTITION_EOF :: int where
  "PARTITION_EOF = - 191"

definition api_resources :: string where
  "api_resources = ''api-resources/api-resources''"

section \<open>Generating the Kuadrant resources\<close>

text \<open>\<^verbatim>\<open>data.pop('status', None)\<close> on whatever \<^verbatim>\<open>yaml.safe_load\<close> returned.\<close>

fun pop_status :: "pyval \<Rightarrow> exn + pyval" where
  "pop_status (PDict d) = Inr (PDict (dict_pop ''status'' d))"
| "pop_status (PList _) = Inl TypeError"
| "pop_status _ = Inl AttributeError"

text \<open>
  What goes to the tool's standard input: \<^verbatim>\<open>bytes\<close> are decoded first, text is
  passed as it is, \<^verbatim>\<open>None\<close> gives no input.
\<close>

definition stdin_text :: "env \<Rightarrow> content \<Rightarrow> exn + string option" where
  "stdin_text env openapi_content =
     (case openapi_content of
        CBytes b \<Rightarrow> (case bytes_decode env b of
                       None \<Rightarrow> Inl UnicodeDecodeError
                     | Some s \<Rightarrow> Inr (Some s))
      | CStr s \<Rightarrow> Inr (Some s)
      | CNone \<Rightarrow> Inr None)"

text \<open>
  The body of the \<^verbatim>\<open>try\<close> of \<^verbatim>\<open>invoke_kuadrant_command\<close>: decode the content,
  run the tool, parse its output, drop \<open>status\<close>, write the file.
\<close>

definition kuadrant_try ::
  "env \<Rightarrow> string list \<Rightarrow> content \<Rightarrow> string \<Rightarrow> world \<Rightarrow> (exn + unit) \<times> world" where
  "kuadrant_try env args openapi_content file_path w =
     (case stdin_text env openapi_content of
        Inl e \<Rightarrow> (Inl e, w)
      | Inr input \<Rightarrow>
          (let w1 = emit (SubprocessRun args input) w
           in case subprocess_run env args input of
                Inl e \<Rightarrow> (Inl e, w1)
              | Inr stdout \<Rightarrow>
                  (case yaml_safe_load env stdout of
                     Inl e \<Rightarrow> (Inl e, w1)
                   | Inr data \<Rightarrow>
                       (case pop_status data of
                          Inl e \<Rightarrow> (Inl e, w1)
                        | Inr data' \<Rightarrow>
                            (case write_text (fs w1) (getcwd env) file_path (yaml_dump env data') of
                               Inl e \<Rightarrow> (Inl e, w1)
                             | Inr t \<Rightarrow> (Inr (), emit (Print (LogSaved file_path)) (w1\<lparr>fs := t\<rparr>)))))))"

definition invoke_kuadrant_command ::
  "env \<Rightarrow> pyval \<Rightarrow> pyval \<Rightarrow> pyval \<Rightarrow> string list \<Rightarrow> content \<Rightarrow> string \<Rightarrow> world
     \<Rightarrow> (exn + unit) \<times> world" where
  "invoke_kuadrant_command env group_id artifact_id version args openapi_content filename w =
     (case fspaths [group_id, artifact_id, version] of
        Inr [g, a, v] \<Rightarrow>
          (let folder_path = foldl join2 (dirname (getcwd env)) [api_resources, g, a, v]
           in case makedirs (fs w) (getcwd env) folder_path of
                Inl e \<Rightarrow> (Inl e, w)
              | Inr t \<Rightarrow>
                  (let w1 = w\<lparr>fs := t\<rparr>;
                       filename' = g @ ''_'' @ a @ ''_v'' @ v @ ''_'' @ filename @ ''.yaml'';
                       file_path = join2 folder_path filename'
                   in case kuadrant_try env args openapi_content file_path w1 of
                        (Inl e, w2) \<Rightarrow>
                          if is_CalledProcessError e
                          then (Inr (), emit (Print (LogErrorGenerating e)) w2)
                          else (Inl e, w2)
                      | (Inr u, w2) \<Rightarrow> (Inr u, w2)))
      | Inr _ \<Rightarrow> (Inl TypeError, w)
      | Inl e \<Rightarrow> (Inl e, w))"

definition httproute_args :: "string list" where
  "httproute_args = [''kuadrantctl'', ''generate'', ''gatewayapi'', ''httproute'', ''--oas'', ''-'']"

definition authpolicy_args :: "string list" where
  "authpolicy_args = [''kuadrantctl'', ''generate'', ''kuadrant'', ''authpolicy'', ''--oas'', ''-'']"

definition ratelimitpolicy_args :: "string list" where
  "ratelimitpolicy_args =
     [''kuadrantctl'', ''generate'', ''kuadrant'', ''ratelimitpolicy'', ''--oas'', ''-'']"

definition invoke_kuadrant_cli ::
  "env \<Rightarrow> pyval \<Rightarrow> pyval \<Rightarrow> pyval \<Rightarrow> content \<Rightarrow> world \<Rightarrow> (exn + unit) \<times> world" where
  "invoke_kuadrant_cli env group_id artifact_id version openapi_content w =
     (case invoke_kuadrant_command env group_id artifact_id version httproute_args
             openapi_content ''httproute'' w of
        (Inl e, w1) \<Rightarrow> (Inl e, w1)
      | (Inr _, w1) \<Rightarrow>
          (case invoke_kuadrant_command env group_id artifact_id version authpolicy_args
                  openapi_content ''authpolicy'' w1 of
             (Inl e, w2) \<Rightarrow> (Inl e, w2)
           | (Inr _, w2) \<Rightarrow>
               invoke_kuadrant_command env group_id artifact_id version ratelimitpolicy_args
                 openapi_content ''ratelimiting_policy'' w2))"

section \<open>Fetching and deleting\<close>

text \<open>
  \<^verbatim>\<open>get_artifact_content\<close>: the content, then the state, then the generation when the
  registry says \<open>ENABLED\<close>; any \<^verbatim>\<open>Exception\<close> on the way is printed and dropped.
\<close>

definition get_artifact_content_try ::
  "env \<Rightarrow> string \<Rightarrow> pyval \<Rightarrow> pyval \<Rightarrow> pyval \<Rightarrow> world \<Rightarrow> (exn + unit) \<times> world" where
  "get_artifact_content_try env url group_id artifact_id version w =
     (let w1 = emit (RegistryContent url group_id artifact_id version) w
      in case registry_content env url group_id artifact_id version of
           Inl e \<Rightarrow> (Inl e, w1)
         | Inr artifact_content \<Rightarrow>
             (let w2 = emit (RegistryState url group_id artifact_id version) w1
              in case registry_state env url group_id artifact_id version of
                   Inl e \<Rightarrow> (Inl e, w2)
                 | Inr state \<Rightarrow>
                     if state = ENABLED
                     then invoke_kuadrant_cli env group_id artifact_id version artifact_content w2
                     else (Inr (), w2)))"

definition get_artifact_content ::
  "env \<Rightarrow> string \<Rightarrow> pyval \<Rightarrow> pyval \<Rightarrow> pyval \<Rightarrow> world \<Rightarrow> (exn + unit) \<times> world" where
  "get_artifact_content env url group_id artifact_id version w =
     (case get_artifact_content_try env url group_id artifact_id version w of
        (Inl e, w1) \<Rightarrow>
          if is_Exception e
          then (Inr (), emit (Print (LogFailedToRetrieve artifact_id version e)) w1)
          else (Inl e, w1)
      | (Inr u, w1) \<Rightarrow> (Inr u, w1))"

definition delete_artifact_directory ::
  "env \<Rightarrow> pyval \<Rightarrow> pyval \<Rightarrow> world \<Rightarrow> (exn + unit) \<times> world" where
  "delete_artifact_directory env group_id artifact_id w =
     (case os_path_join (dirname (getcwd env)) [PStr api_resources, group_id, artifact_id] of
        Inl e \<Rightarrow> (Inl e, w)
      | Inr folder_path \<Rightarrow>
          if os_path_exists (fs w) (getcwd env) folder_path
          then (case rmtree (fs w) (getcwd env) folder_path of
                  Inl e \<Rightarrow> (Inl e, w)
                | Inr t \<Rightarrow>
                    (Inr (), emit (Print (LogDeletedArtifactDirectory folder_path)) (w\<lparr>fs := t\<rparr>)))
          else (Inr (), emit (Print (LogArtifactDirectoryMissing folder_path)) w))"

definition delete_version ::
  "env \<Rightarrow> pyval \<Rightarrow> pyval \<Rightarrow> pyval \<Rightarrow> world \<Rightarrow> (exn + unit) \<times> world" where
  "delete_version env group_id artifact_id version w =
     (case os_path_join (dirname (getcwd env))
             [PStr api_resources, group_id, artifact_id, version] of
        Inl e \<Rightarrow> (Inl e, w)
      | Inr folder_path \<Rightarrow>
          if os_path_exists (fs w) (getcwd env) folder_path
          then (case rmtree (fs w) (getcwd env) folder_path of
                  Inl e \<Rightarrow> (Inl e, w)
                | Inr t \<Rightarrow> (Inr (), emit (Print (LogDeletedDirectory folder_path)) (w\<lparr>fs := t\<rparr>)))
          else (Inr (), emit (Print (LogDirectoryMissing folder_path)) w))"

section \<open>Dispatching one message\<close>

text \<open>\<^verbatim>\<open>msg_value['payload']\<close>: only a dictionary can be read by a string key.\<close>

fun subscript :: "pyval \<Rightarrow> string \<Rightarrow> exn + pyval" where
  "subscript (PDict d) k = (case map_of d k of None \<Rightarrow> Inl (KeyError k) | Some v \<Rightarrow> Inr v)"
| "subscript _ k = Inl TypeError"

text \<open>\<^verbatim>\<open>json.loads(x)\<close> on a value: only text can be parsed.\<close>

fun loads_value :: "env \<Rightarrow> pyval \<Rightarrow> exn + pyval" where
  "loads_value env (PStr s) = (case json_loads env s of None \<Rightarrow> Inl JSONDecodeError | Some v \<Rightarrow> Inr v)"
| "loads_value env _ = Inl TypeError"

text \<open>The first two lines of \<^verbatim>\<open>process_message\<close>: the message body, then its payload.\<close>

definition decode_payload :: "env \<Rightarrow> msg \<Rightarrow> exn + pyval" where
  "decode_payload env m =
     (case msg_value m of
        None \<Rightarrow> Inl AttributeError
      | Some b \<Rightarrow>
          (case bytes_decode env b of
             None \<Rightarrow> Inl UnicodeDecodeError
           | Some s \<Rightarrow>
               (case json_loads env s of
                  None \<Rightarrow> Inl JSONDecodeError
                | Some msg_val \<Rightarrow>
                    (case subscript msg_val ''payload'' of
                       Inl e \<Rightarrow> Inl e
                     | Inr p \<Rightarrow> loads_value env p))))"

text \<open>
  The dispatch on the event type. Every field is read with \<^verbatim>\<open>payload.get\<close>, which
  only a dictionary has; a field that is missing reads as \<open>PNone\<close> (the group as
  \<open>default\<close>).
\<close>

definition dispatch :: "env \<Rightarrow> string \<Rightarrow> pyval \<Rightarrow> world \<Rightarrow> (exn + unit) \<times> world" where
  "dispatch env url payload w =
     (case payload of
        PDict d \<Rightarrow>
          (let artifact_id = dict_get d ''artifactId'' PNone;
               version = dict_get d ''version'' PNone;
               event_type = dict_get d ''eventType'' PNone;
               group_id = dict_get d ''groupId'' (PStr ''default'')
           in if event_type = PStr ''ARTIFACT_VERSION_CREATED''
              then get_artifact_content env url group_id artifact_id version
                     (emit (Print (LogVersionCreated event_type artifact_id version)) w)
              else if event_type = PStr ''ARTIFACT_VERSION_STATE_CHANGED''
              then (let new_state = dict_get d ''newState'' PNone
                    in if new_state = PStr ''ENABLED''
                       then get_artifact_content env url group_id artifact_id version
                              (emit (Print (LogVersionEnabled event_type artifact_id version)) w)
                       else (Inr (), emit (Print (LogSkipping artifact_id new_state)) w))
              else if event_type = PStr ''ARTIFACT_DELETED''
              then delete_artifact_directory env group_id artifact_id
                     (emit (Print (LogArtifactDeleted event_type artifact_id)) w)
              else if event_type = PStr ''ARTIFACT_VERSION_DELETED''
              then delete_version env group_id artifact_id version
                     (emit (Print (LogVersionDeleted event_type artifact_id version)) w)
              else (Inr (), emit (Print (LogOtherEvent event_type artifact_id version)) w))
      | _ \<Rightarrow> (Inl AttributeError, w))"

text \<open>
  \<^verbatim>\<open>process_message\<close>: the two handlers catch \<^verbatim>\<open>JSONDecodeError\<close> and
  \<^verbatim>\<open>KeyError\<close>; every other exception leaves the function.
\<close>

definition process_message :: "env \<Rightarrow> string \<Rightarrow> msg \<Rightarrow> world \<Rightarrow> (exn + unit) \<times> world" where
  "process_message env url m w =
     (case (case decode_payload env m of
              Inl e \<Rightarrow> (Inl e, w)
            | Inr payload \<Rightarrow> dispatch env url payload w) of
        (Inl e, w1) \<Rightarrow>
          if is_JSONDecodeError e then (Inr (), emit (Print (LogFailedToDecode e)) w1)
          else if is_KeyError e then (Inr (), emit (Print (LogMissingKey e)) w1)
          else (Inl e, w1)
      | (Inr u, w1) \<Rightarrow> (Inr u, w1))"

text \<open>
  \<^verbatim>\<open>process_messages\<close>: a message that carries a delivery error is skipped (printed
  unless it is the end-of-partition marker); the others are processed in order.
\<close>

fun process_messages :: "env \<Rightarrow> string \<Rightarrow> msg list \<Rightarrow> world \<Rightarrow> (exn + unit) \<times> world" where
  "process_messages env url [] w = (Inr (), w)"
| "process_messages env url (m # ms) w =
     (case msg_error m of
        Some code \<Rightarrow>
          if code = PARTITION_EOF then process_messages env url ms w
          else process_messages env url ms (emit (Print (LogKafkaError code)) w)
      | None \<Rightarrow>
          (case process_message env url m w of
             (Inl e, w1) \<Rightarrow>
               if is_JSONDecodeError e
               then process_messages env url ms (emit (Print (LogErrorDecoding e)) w1)
               else (Inl e, w1)
           | (Inr _, w1) \<Rightarrow> process_messages env url ms w1))"

section \<open>The consumption loop\<close>

text \<open>
  \<^verbatim>\<open>commit_and_push_to_git\<close>: three git commands; the first that exits non-zero is
  printed and ends the function normally.
\<close>

definition git_args :: "env \<Rightarrow> string list \<Rightarrow> string list" where
  "git_args env rest = [''git'', ''-C'', join2 (dirname (getcwd env)) api_resources] @ rest"

definition commit_and_push_try :: "env \<Rightarrow> world \<Rightarrow> (exn + unit) \<times> world" where
  "commit_and_push_try env w =
     (let w1 = emit (SubprocessRun (git_args env [''add'', ''.'']) None) w
      in case subprocess_run env (git_args env [''add'', ''.'']) None of
           Inl e \<Rightarrow> (Inl e, w1)
         | Inr _ \<Rightarrow>
             (let commit_message = ''Update Kuadrant resources'';
                  w2 = emit (SubprocessRun (git_args env [''commit'', ''-m'', commit_message]) None) w1
              in case subprocess_run env (git_args env [''commit'', ''-m'', commit_message]) None of
                   Inl e \<Rightarrow> (Inl e, w2)
                 | Inr _ \<Rightarrow>
                     (let w3 = emit (SubprocessRun (git_args env [''push'']) None) w2
                      in case subprocess_run env (git_args env [''push'']) None of
                           Inl e \<Rightarrow> (Inl e, w3)
                         | Inr _ \<Rightarrow> (Inr (), emit (Print LogPushed) w3))))"

definition commit_and_push_to_git :: "env \<Rightarrow> world \<Rightarrow> (exn + unit) \<times> world" where
  "commit_and_push_to_git env w =
     (case commit_and_push_try env w of
        (Inl e, w1) \<Rightarrow>
          if is_CalledProcessError e then (Inr (), emit (Print (LogErrorPushing e)) w1)
          else (Inl e, w1)
      | (Inr u, w1) \<Rightarrow> (Inr u, w1))"

text \<open>
  How a run of the loop ends: by its \<^verbatim>\<open>break\<close>, by an exception, or (when the polls
  given to the model are used up) still polling, with the idle time reached so far.
\<close>

datatype outcome = Returned | Raised exn | Polling int

text \<open>
  The \<^verbatim>\<open>while True\<close> of \<^verbatim>\<open>consume_messages_in_batches\<close>. What
  \<^verbatim>\<open>consumer.consume\<close> answers, poll after poll, is the list \<open>polls\<close>: a batch of
  messages or an exception.
\<close>

fun consume_loop ::
  "env \<Rightarrow> string \<Rightarrow> int \<Rightarrow> int \<Rightarrow> int \<Rightarrow> int \<Rightarrow> (exn + msg list) list \<Rightarrow> world
     \<Rightarrow> outcome \<times> world" where
  "consume_loop env url batch_size timeout idle_timeout idle_time [] w = (Polling idle_time, w)"
| "consume_loop env url batch_size timeout idle_timeout idle_time (p # ps) w =
     (let w1 = emit (ConsumerConsume batch_size timeout) w
      in case p of
           Inl e \<Rightarrow> (Raised e, w1)
         | Inr messages \<Rightarrow>
             if messages \<noteq> []
             then (case process_messages env url messages w1 of
                     (Inl e, w2) \<Rightarrow> (Raised e, w2)
                   | (Inr _, w2) \<Rightarrow>
                       consume_loop env url batch_size timeout idle_timeout 0 ps w2)
             else if idle_time + timeout \<ge> idle_timeout
             then (case commit_and_push_to_git env (emit (Print LogNoMessagesLeft) w1) of
                     (Inl e, w2) \<Rightarrow> (Raised e, w2)
                   | (Inr _, w2) \<Rightarrow> (Returned, w2))
             else consume_loop env url batch_size timeout idle_timeout (idle_time + timeout) ps w1)"

text \<open>
  \<^verbatim>\<open>consume_messages_in_batches\<close>: the loop starts with no idle time, and the
  \<^verbatim>\<open>finally\<close> closes the consumer however the loop was left.
\<close>

definition consume_messages_in_batches ::
  "env \<Rightarrow> string \<Rightarrow> int \<Rightarrow> int \<Rightarrow> int \<Rightarrow> (exn + msg list) list \<Rightarrow> world \<Rightarrow> outcome \<times> world" where
  "consume_messages_in_batches env url batch_size timeout idle_timeout polls w =
     (case consume_loop env url batch_size timeout idle_timeout 0 polls w of
        (Polling i, w1) \<Rightarrow> (Polling i, w1)
      | (r, w1) \<Rightarrow> (r, emit ConsumerClose w1))"

section \<open>Notions used in the properties\<close>

text \<open>
  A Synchronizer invocation is a call of \<^verbatim>\<open>commit_and_push_to_git\<close>; each one starts
  with \<^verbatim>\<open>git add\<close>, so the invocations are counted by that command in the trace.
\<close>

definition sync_count :: "env \<Rightarrow> event list \<Rightarrow> nat" where
  "sync_count env tr = count_list tr (SubprocessRun (git_args env [''add'', ''.'']) None)"




text \<open>
  The number of polls up to and including the first two empty polls in a row; \<open>None\<close>
  when no two empty polls follow each other.
\<close>

fun polls_to_flush :: "msg list list \<Rightarrow> nat option" where
  "polls_to_flush ([] # [] # bs) = Some 2"
| "polls_to_flush (b # bs) = map_option Suc (polls_to_flush bs)"
| "polls_to_flush [] = None"

text \<open>The number of polls made so far.\<close>

definition consumed :: "event list \<Rightarrow> nat" where
  "consumed tr = length (filter (\<lambda>e. case e of ConsumerConsume _ _ \<Rightarrow> True | _ \<Rightarrow> False) tr)"

definition kuadrant_args :: "string list \<Rightarrow> bool" where
  "kuadrant_args args = (args \<noteq> [] \<and> hd args = ''kuadrantctl'')"

text \<open>
  The events that handling messages can add to the trace: printed lines, registry
  requests and runs of \<^verbatim>\<open>kuadrantctl\<close>.
\<close>

fun handling_event :: "event \<Rightarrow> bool" where
  "handling_event (Print _) = True"
| "handling_event (RegistryContent _ _ _ _) = True"
| "handling_event (RegistryState _ _ _ _) = True"
| "handling_event (SubprocessRun args _) = kuadrant_args args"
| "handling_event _ = False"

fun is_subprocess :: "event \<Rightarrow> bool" where
  "is_subprocess (SubprocessRun _ _) = True"
| "is_subprocess _ = False"

text \<open>A property of events that no event of message handling has.\<close>

definition quiet :: "(event \<Rightarrow> bool) \<Rightarrow> bool" where
  "quiet Q = (\<forall>e. handling_event e \<longrightarrow> \<not> Q e)"

text \<open>
  An identifier that is one path segment: not empty, without a separator, and neither
  \<open>.\<close> nor \<open>..\<close>.
\<close>

definition segment :: "string \<Rightarrow> bool" where
  "segment s = (s \<noteq> [] \<and> CHR ''/'' \<notin> set s \<and> s \<noteq> ''.'' \<and> s \<noteq> ''..'')"

text \<open>The root of the output tree, as the file system resolves it.\<close>

definition output_root :: "env \<Rightarrow> string list" where
  "output_root env = resolve (getcwd env) (join2 (dirname (getcwd env)) api_resources)"

text \<open>The name of the file of one generation mode.\<close>

definition resource_name :: "string \<Rightarrow> string \<Rightarrow> string \<Rightarrow> string \<Rightarrow> string" where
  "resource_name g a v mode = g @ ''_'' @ a @ ''_v'' @ v @ ''_'' @ mode @ ''.yaml''"

text \<open>The path string that \<^verbatim>\<open>invoke_kuadrant_command\<close> builds for one mode.\<close>

definition resource_path :: "env \<Rightarrow> string \<Rightarrow> string \<Rightarrow> string \<Rightarrow> string \<Rightarrow> string" where
  "resource_path env g a v mode =
     join2 (foldl join2 (dirname (getcwd env)) [api_resources, g, a, v])
       (resource_name g a v mode)"

section \<open>The generation seen from the file system\<close>

text \<open>
  What one run of the tool comes to, once its input is decoded, its output parsed and
  the \<open>status\<close> dropped: the text to write, or the exception.
\<close>

definition rendered :: "env \<Rightarrow> string list \<Rightarrow> content \<Rightarrow> exn + string" where
  "rendered env args c =
     (case stdin_text env c of
        Inl e \<Rightarrow> Inl e
      | Inr input \<Rightarrow>
          (case subprocess_run env args input of
             Inl e \<Rightarrow> Inl e
           | Inr out \<Rightarrow>
               (case yaml_safe_load env out of
                  Inl e \<Rightarrow> Inl e
                | Inr data \<Rightarrow>
                    (case pop_status data of
                       Inl e \<Rightarrow> Inl e
                     | Inr data' \<Rightarrow> Inr (yaml_dump env data')))))"

text \<open>
  The effect of one \<^verbatim>\<open>invoke_kuadrant_command\<close> on the file system, for a version
  directory \<open>P\<close> and a file name \<open>n\<close>: the directories on the way to \<open>P\<close> are
  made, then the text is written to \<open>P/n\<close>; a non-zero exit of the tool is swallowed.
\<close>

definition with_dirs :: "string list \<Rightarrow> filesys \<Rightarrow> filesys" where
  "with_dirs P t = (\<lambda>r. if r \<noteq> [] \<and> prefix r P \<and> t r = None then Some Dir else t r)"

definition gen_fs :: "string list \<Rightarrow> string \<Rightarrow> exn + string \<Rightarrow> filesys \<Rightarrow> (exn + unit) \<times> filesys" where
  "gen_fs P n res t =
     (if list_ex (is_file t) (prefixes P) then (Inl OSError, t)
      else (case res of
              Inl e \<Rightarrow> (if is_CalledProcessError e then Inr () else Inl e, with_dirs P t)
            | Inr txt \<Rightarrow>
                if with_dirs P t (P @ [n]) = Some Dir then (Inl OSError, with_dirs P t)
                else (Inr (), (with_dirs P t)(P @ [n] \<mapsto> File txt))))"

definition ready :: "string list \<Rightarrow> filesys \<Rightarrow> bool" where
  "ready P t = (\<forall>r. r \<noteq> [] \<and> prefix r P \<longrightarrow> t r = Some Dir)"

text \<open>The three modes in a row, and the fetch around them.\<close>

definition cli_fs :: "env \<Rightarrow> string \<Rightarrow> string \<Rightarrow> string \<Rightarrow> content \<Rightarrow> filesys
    \<Rightarrow> (exn + unit) \<times> filesys" where
  "cli_fs env g a v c t =
     (case gen_fs (output_root env @ [g, a, v]) (resource_name g a v ''httproute'')
             (rendered env httproute_args c) t of
        (Inl e, t1) \<Rightarrow> (Inl e, t1)
      | (Inr _, t1) \<Rightarrow>
          (case gen_fs (output_root env @ [g, a, v]) (resource_name g a v ''authpolicy'')
                  (rendered env authpolicy_args c) t1 of
             (Inl e, t2) \<Rightarrow> (Inl e, t2)
           | (Inr _, t2) \<Rightarrow>
               gen_fs (output_root env @ [g, a, v]) (resource_name g a v ''ratelimiting_policy'')
                 (rendered env ratelimitpolicy_args c) t2))"

definition fetch_fs :: "env \<Rightarrow> string \<Rightarrow> string \<Rightarrow> string \<Rightarrow> string \<Rightarrow> filesys
    \<Rightarrow> (exn + unit) \<times> filesys" where
  "fetch_fs env url g a v t =
     (case registry_content env url (PStr g) (PStr a) (PStr v) of
        Inl e \<Rightarrow> (if is_Exception e then Inr () else Inl e, t)
      | Inr c \<Rightarrow>
          (case registry_state env url (PStr g) (PStr a) (PStr v) of
             Inl e \<Rightarrow> (if is_Exception e then Inr () else Inl e, t)
           | Inr st \<Rightarrow>
               if st = ENABLED
               then (case cli_fs env g a v c t of
                       (Inl e, t') \<Rightarrow> (if is_Exception e then Inr () else Inl e, t')
                     | (Inr u, t') \<Rightarrow> (Inr u, t'))
               else (Inr (), t)))"

text \<open>
  What a generation for the coordinate may change: a path keeps what it had, or it is a
  directory on the way to the version directory, or it is the file of one of the three
  modes in the version directory.
\<close>

definition touched :: "env \<Rightarrow> string \<Rightarrow> string \<Rightarrow> string \<Rightarrow> filesys \<Rightarrow> filesys \<Rightarrow> bool" where
  "touched env g a v t t' =
     (\<forall>p. t' p = t p
          \<or> (p \<noteq> [] \<and> prefix p (output_root env @ [g, a, v]) \<and> t' p = Some Dir)
          \<or> (\<exists>mode \<in> {''httproute'', ''authpolicy'', ''ratelimiting_policy''}.
               p = output_root env @ [g, a, v, resource_name g a v mode]
               \<and> (\<exists>body. t' p = Some (File body))))"

section \<open>A sample environment\<close>

text \<open>
  A small world to run the script in. The parser knows a few payloads by name, and an
  envelope \<open>envelope:x\<close> carries the payload text \<open>x\<close>. The registry refuses an
  identifier that is not a string, reports \<open>legacy-api\<close> as disabled and every other
  artifact as enabled, and hands out the artifact's name as its content. The tool prints
  a document with a \<open>status\<close> block; for \<open>broken-api\<close> its \<open>httproute\<close> output is not
  YAML, and for \<open>flaky-api\<close> its \<open>authpolicy\<close> run exits non-zero.
\<close>

definition event_payload :: "string \<Rightarrow> (string \<times> pyval) list \<Rightarrow> pyval" where
  "event_payload event_type items = PDict ((''eventType'', PStr event_type) # items)"

definition sample_payloads :: "(string \<times> pyval) list" where
  "sample_payloads =
     [(''created'', event_payload ''ARTIFACT_VERSION_CREATED''
         [(''artifactId'', PStr ''orders-api''), (''version'', PStr ''1''), (''groupId'', PStr ''shop'')]),
      (''created-broken'', event_payload ''ARTIFACT_VERSION_CREATED''
         [(''artifactId'', PStr ''broken-api''), (''version'', PStr ''1''), (''groupId'', PStr ''shop'')]),
      (''created-no-id'', event_payload ''ARTIFACT_VERSION_CREATED''
         [(''version'', PStr ''1''), (''groupId'', PStr ''shop'')]),
      (''created-abs'', event_payload ''ARTIFACT_VERSION_CREATED''
         [(''artifactId'', PStr ''/x''), (''version'', PStr ''1''), (''groupId'', PStr ''shop'')]),
      (''changed'', event_payload ''ARTIFACT_VERSION_STATE_CHANGED''
         [(''artifactId'', PStr ''orders-api''), (''version'', PStr ''1''), (''groupId'', PStr ''shop'')]),
      (''enabled-legacy'', event_payload ''ARTIFACT_VERSION_STATE_CHANGED''
         [(''artifactId'', PStr ''legacy-api''), (''version'', PStr ''1''), (''groupId'', PStr ''shop''),
          (''newState'', PStr ''ENABLED'')]),
      (''version-deleted'', event_payload ''ARTIFACT_VERSION_DELETED''
         [(''artifactId'', PStr ''orders-api''), (''version'', PStr ''1''), (''groupId'', PStr ''shop'')]),
      (''version-deleted-empty'', event_payload ''ARTIFACT_VERSION_DELETED''
         [(''artifactId'', PStr ''orders-api''), (''version'', PStr []), (''groupId'', PStr ''shop'')]),
      (''version-deleted-no-version'', event_payload ''ARTIFACT_VERSION_DELETED''
         [(''artifactId'', PStr ''orders-api''), (''groupId'', PStr ''shop'')]),
      (''artifact-deleted'', event_payload ''ARTIFACT_DELETED''
         [(''artifactId'', PStr ''orders-api''), (''groupId'', PStr ''shop'')]),
      (''artifact-deleted-no-id'', event_payload ''ARTIFACT_DELETED''
         [(''groupId'', PStr ''shop'')])]"

definition sample_loads :: "string \<Rightarrow> pyval option" where
  "sample_loads s =
     (if take 9 s = ''envelope:'' then Some (PDict [(''payload'', PStr (drop 9 s))])
      else map_of sample_payloads s)"

fun sample_content :: "string \<Rightarrow> pyval \<Rightarrow> pyval \<Rightarrow> pyval \<Rightarrow> exn + content" where
  "sample_content url (PStr g) (PStr a) (PStr v) = Inr (CBytes a)"
| "sample_content url _ _ _ = Inl TypeError"

fun sample_state :: "string \<Rightarrow> pyval \<Rightarrow> pyval \<Rightarrow> pyval \<Rightarrow> exn + version_state" where
  "sample_state url (PStr g) (PStr a) (PStr v) =
     Inr (if a = ''legacy-api'' then DISABLED else ENABLED)"
| "sample_state url _ _ _ = Inl TypeError"

definition sample_run :: "string list \<Rightarrow> string option \<Rightarrow> exn + string" where
  "sample_run args input =
     (if hd args = ''git'' then Inr []
      else if input = Some ''broken-api'' \<and> args = httproute_args then Inr ''not yaml''
      else if input = Some ''flaky-api'' \<and> args = authpolicy_args
           then Inl (CalledProcessError ''exit 1'')
      else Inr (args ! 3))"

definition sample_load :: "string \<Rightarrow> exn + pyval" where
  "sample_load s =
     (if s = ''not yaml'' then Inl YAMLError
      else Inr (PDict [(''kind'', PStr s), (''status'', PDict [])]))"

fun sample_field :: "string \<times> pyval \<Rightarrow> string" where
  "sample_field (k, PStr s) = k @ '': '' @ s @ ''; ''"
| "sample_field (k, _) = k @ ''; ''"

fun sample_dump :: "pyval \<Rightarrow> string" where
  "sample_dump (PDict d) = concat (map sample_field d)"
| "sample_dump _ = []"

definition sample_env :: env where
  "sample_env =
     \<lparr>getcwd = ''/work/scripts'',
      bytes_decode = Some,
      json_loads = sample_loads,
      registry_content = sample_content,
      registry_state = sample_state,
      subprocess_run = sample_run,
      yaml_safe_load = sample_load,
      yaml_dump = sample_dump\<rparr>"

definition sample_msg :: "string \<Rightarrow> msg" where
  "sample_msg name = \<lparr>msg_error = None, msg_value = Some (''envelope:'' @ name)\<rparr>"

text \<open>An empty file system, and one with two versions of \<open>orders-api\<close> in place.\<close>

definition empty_world :: world where
  "empty_world = \<lparr>fs = (\<lambda>p. None), trace = []\<rparr>"

definition orders_dir :: "string list" where
  "orders_dir = [''work'', ''api-resources'', ''api-resources'', ''shop'', ''orders-api'']"

definition two_versions :: filesys where
  "two_versions =
     map_of
       [([''work''], Dir),
        ([''work'', ''api-resources''], Dir),
        ([''work'', ''api-resources'', ''api-resources''], Dir),
        ([''work'', ''api-resources'', ''api-resources'', ''shop''], Dir),
        (orders_dir, Dir),
        (orders_dir @ [''1''], Dir),
        (orders_dir @ [''1'', ''shop_orders-api_v1_httproute.yaml''], File ''kind: httproute; ''),
        (orders_dir @ [''2''], Dir),
        (orders_dir @ [''2'', ''shop_orders-api_v2_httproute.yaml''], File ''kind: httproute; '')]"

definition stocked_world :: world where
  "stocked_world = \<lparr>fs = two_versions, trace = []\<rparr>"


section \<open>Basic facts\<close>

lemmas sample_defs = sample_env_def sample_msg_def sample_loads_def sample_payloads_def
  event_payload_def sample_run_def sample_load_def

lemma dict_pop_absent: "map_of (dict_pop k d) k = None"
  by (induction d) (auto simp: dict_pop_def)

lemma count_list_filter: "count_list xs y = length (filter (\<lambda>e. e = y) xs)"
  by (induction xs) auto

section \<open>What handling messages leaves alone in the trace\<close>

lemma quiet_Print [simp]: "quiet Q \<Longrightarrow> Q (Print l) = False"
  and quiet_RegistryContent [simp]: "quiet Q \<Longrightarrow> Q (RegistryContent u g a v) = False"
  and quiet_RegistryState [simp]: "quiet Q \<Longrightarrow> Q (RegistryState u g a v) = False"
  and quiet_Subprocess [simp]:
    "quiet Q \<Longrightarrow> kuadrant_args args \<Longrightarrow> Q (SubprocessRun args i) = False"
  by (auto simp: quiet_def)

lemma kuadrant_args_modes [simp]:
  "kuadrant_args httproute_args" "kuadrant_args authpolicy_args"
  "kuadrant_args ratelimitpolicy_args"
  by (simp_all add: kuadrant_args_def httproute_args_def authpolicy_args_def
      ratelimitpolicy_args_def)

lemma kuadrant_try_quiet [simp]:
  "quiet Q \<Longrightarrow> kuadrant_args args \<Longrightarrow>
   filter Q (trace (snd (kuadrant_try env args c fp w))) = filter Q (trace w)"
  by (simp add: kuadrant_try_def Let_def emit_def split: sum.splits)

lemma invoke_kuadrant_command_quiet [simp]:
  "quiet Q \<Longrightarrow> kuadrant_args args \<Longrightarrow>
   filter Q (trace (snd (invoke_kuadrant_command env g a v args c f w))) = filter Q (trace w)"
  by (simp add: invoke_kuadrant_command_def Let_def emit_def case_prod_beta
           split: sum.splits list.splits)

lemma invoke_kuadrant_cli_quiet [simp]:
  "quiet Q \<Longrightarrow> filter Q (trace (snd (invoke_kuadrant_cli env g a v c w))) = filter Q (trace w)"
  by (simp add: invoke_kuadrant_cli_def case_prod_beta split: sum.splits)

lemma get_artifact_content_quiet [simp]:
  "quiet Q \<Longrightarrow>
   filter Q (trace (snd (get_artifact_content env url g a v w))) = filter Q (trace w)"
  by (simp add: get_artifact_content_def get_artifact_content_try_def Let_def emit_def
        case_prod_beta split: sum.splits)

lemma delete_artifact_directory_quiet [simp]:
  "quiet Q \<Longrightarrow>
   filter Q (trace (snd (delete_artifact_directory env g a w))) = filter Q (trace w)"
  by (simp add: delete_artifact_directory_def emit_def split: sum.splits)

lemma delete_version_quiet [simp]:
  "quiet Q \<Longrightarrow> filter Q (trace (snd (delete_version env g a v w))) = filter Q (trace w)"
  by (simp add: delete_version_def emit_def split: sum.splits)

lemma dispatch_quiet [simp]:
  "quiet Q \<Longrightarrow> filter Q (trace (snd (dispatch env url p w))) = filter Q (trace w)"
  by (simp add: dispatch_def Let_def emit_def split: pyval.splits)

lemma process_message_quiet [simp]:
  "quiet Q \<Longrightarrow> filter Q (trace (snd (process_message env url m w))) = filter Q (trace w)"
  by (simp add: process_message_def emit_def case_prod_beta split: sum.splits)

lemma process_messages_quiet [simp]:
  "quiet Q \<Longrightarrow> filter Q (trace (snd (process_messages env url ms w))) = filter Q (trace w)"
  by (induction ms arbitrary: w)
     (simp_all add: emit_def case_prod_beta split: option.splits sum.splits)




lemma quiet_close: "quiet (\<lambda>e. e = ConsumerClose)"
  by (auto simp: quiet_def)





lemma emit_sync [simp]:
  "sync_count env (trace (emit (ConsumerConsume n t) w)) = sync_count env (trace w)"
  "sync_count env (trace (emit (Print l) w)) = sync_count env (trace w)"
  "sync_count env (trace (emit ConsumerClose w)) = sync_count env (trace w)"
  by (simp_all add: sync_count_def emit_def)

lemma emit_consumed [simp]:
  "consumed (trace (emit (ConsumerConsume n t) w)) = Suc (consumed (trace w))"
  "consumed (trace (emit (Print l) w)) = consumed (trace w)"
  "consumed (trace (emit ConsumerClose w)) = consumed (trace w)"
  by (simp_all add: consumed_def emit_def)

section \<open>The loop against the idle clock\<close>



lemma polls_to_flush_Cons:
  "polls_to_flush (b # bs) =
     (if b = [] \<and> bs \<noteq> [] \<and> hd bs = [] then Some 2
      else map_option Suc (polls_to_flush bs))"
proof (cases b)
  case Nil
  show ?thesis
  proof (cases bs)
    case (Cons c cs)
    then show ?thesis using Nil by (cases c) auto
  qed (simp add: Nil)
qed simp


text \<open>
  What \<open>polls_to_flush\<close> computes: \<open>Some k\<close> exactly when the batches have two empty
  polls in a row, the first such pair ending at poll \<open>k\<close>.
\<close>

lemma polls_to_flush_Some:
  "polls_to_flush bs = Some k \<Longrightarrow>
   \<exists>pre rest. bs = pre @ [] # [] # rest \<and> k = length pre + 2
      \<and> polls_to_flush (pre @ [[]]) = None"
proof (induction bs arbitrary: k)
  case Nil
  then show ?case by simp
next
  case (Cons b bs)
  show ?case
  proof (cases "b = [] \<and> bs \<noteq> [] \<and> hd bs = []")
    case True
    then obtain rest where "bs = [] # rest" by (cases bs) auto
    with True Cons.prems
    have "b # bs = [] @ [] # [] # rest \<and> k = length ([]::msg list list) + 2
        \<and> polls_to_flush ([] @ [[]]) = None"
      by (simp add: polls_to_flush_Cons)
    then show ?thesis by blast
  next
    case False
    with Cons.prems obtain k' where k': "polls_to_flush bs = Some k'" "k = Suc k'"
      by (auto simp: polls_to_flush_Cons split: if_splits)
    from Cons.IH [OF k'(1)] obtain pre rest where
      p: "bs = pre @ [] # [] # rest" "k' = length pre + 2" "polls_to_flush (pre @ [[]]) = None"
      by blast
    have "polls_to_flush ((b # pre) @ [[]]) = None"
      using False p by (cases pre) (auto simp: polls_to_flush_Cons)
    with p k' have "b # bs = (b # pre) @ [] # [] # rest \<and> k = length (b # pre) + 2
        \<and> polls_to_flush ((b # pre) @ [[]]) = None" by simp
    then show ?thesis by blast
  qed
qed

lemma polls_to_flush_None: "polls_to_flush (pre @ [] # [] # rest) \<noteq> None"
  by (induction pre) (auto simp: polls_to_flush_Cons)




section \<open>Closing the consumer\<close>

lemma consume_loop_close:
  "filter (\<lambda>e. e = ConsumerClose) (trace (snd (consume_loop env url n t it idle polls w)))
     = filter (\<lambda>e. e = ConsumerClose) (trace w)"
proof (induction polls arbitrary: idle w)
  case Nil
  show ?case by simp
next
  case (Cons p polls)
  have cp: "filter (\<lambda>e. e = ConsumerClose) (trace (snd (commit_and_push_to_git env w1)))
     = filter (\<lambda>e. e = ConsumerClose) (trace w1)" for w1
    by (simp add: commit_and_push_to_git_def commit_and_push_try_def Let_def emit_def
        case_prod_beta split: sum.splits)
  show ?case
    by (simp add: Let_def case_prod_beta Cons.IH cp quiet_close emit_def split: sum.splits)
qed

text \<open>
  Claim C7. However the consumption loop is left (by its \<open>break\<close> after the idle
  flush, by an exception that escapes message processing, or by an interruption of the
  poll), the consumer is closed: closing it is the last thing the function does and it is
  done exactly once. The polls may answer with batches or with exceptions.
\<close>

theorem consumer_closed_on_exit:
  assumes "consume_messages_in_batches env url n t it polls w = (r, w')"
    and "r = Returned \<or> (\<exists>e. r = Raised e)"
  shows "(\<exists>w1. w' = emit ConsumerClose w1)
       \<and> count_list (trace w') ConsumerClose = count_list (trace w) ConsumerClose + 1"
proof -
  obtain r0 w0 where loop: "consume_loop env url n t it 0 polls w = (r0, w0)"
    by (cases "consume_loop env url n t it 0 polls w")
  have w': "w' = emit ConsumerClose w0"
    using assms loop by (auto simp: consume_messages_in_batches_def split: outcome.splits)
  have "filter (\<lambda>e. e = ConsumerClose) (trace w0) = filter (\<lambda>e. e = ConsumerClose) (trace w)"
    using consume_loop_close [of env url n t it 0 polls w] loop by simp
  then have "count_list (trace w0) ConsumerClose = count_list (trace w) ConsumerClose"
    by (simp add: count_list_filter)
  then show ?thesis using w' by (auto simp: emit_def)
qed

theorem consumer_closed_on_exit_witness:
  "fst (consume_messages_in_batches sample_env ''registry'' 10 5 10
          [Inr [sample_msg ''changed''], Inl KeyboardInterrupt] empty_world)
     = Raised KeyboardInterrupt
   \<and> last (trace (snd (consume_messages_in_batches sample_env ''registry'' 10 5 10
          [Inr [sample_msg ''changed''], Inl KeyboardInterrupt] empty_world))) = ConsumerClose
   \<and> count_list (trace (snd (consume_messages_in_batches sample_env ''registry'' 10 5 10
          [Inr [sample_msg ''changed''], Inl KeyboardInterrupt] empty_world))) ConsumerClose = 1"
proof -
  let ?run = "consume_messages_in_batches sample_env ''registry'' 10 5 10
                [Inr [sample_msg ''changed''], Inl KeyboardInterrupt] empty_world"
  have r: "fst ?run = Raised KeyboardInterrupt" by code_simp
  have e: "trace empty_world = []" by (simp add: empty_world_def)
  from consumer_closed_on_exit [OF surjective_pairing, of sample_env "''registry''" 10 5 10
      "[Inr [sample_msg ''changed''], Inl KeyboardInterrupt]" empty_world] r
  have "(\<exists>w1. snd ?run = emit ConsumerClose w1)
       \<and> count_list (trace (snd ?run)) ConsumerClose = 1"
    by (simp add: e)
  then show ?thesis using r by (auto simp: emit_def)
qed

section \<open>The registry's state decides\<close>

lemma get_artifact_content_not_enabled:
  assumes "registry_state env url g a v = Inr st" and "st \<noteq> ENABLED"
  shows "fs (snd (get_artifact_content env url g a v w)) = fs w
       \<and> filter is_subprocess (trace (snd (get_artifact_content env url g a v w)))
           = filter is_subprocess (trace w)"
  using assms
  by (simp add: get_artifact_content_def get_artifact_content_try_def emit_def Let_def
           split: sum.splits)

text \<open>
  Claim C5. For a \<open>VersionCreated\<close> event, and for a \<open>VersionStateChanged\<close> event that
  says \<open>newState = ENABLED\<close>, when the registry reports a state other than \<open>ENABLED\<close>
  for the coordinate of the event, no generation is run (no subprocess is started) and
  the file system is left as it was: the registry's state wins over the event's.
\<close>

theorem registry_state_is_authoritative:
  assumes "decode_payload env m = Inr (PDict d)"
    and "map_of d ''eventType'' = Some (PStr ''ARTIFACT_VERSION_CREATED'')
         \<or> map_of d ''eventType'' = Some (PStr ''ARTIFACT_VERSION_STATE_CHANGED'')
           \<and> map_of d ''newState'' = Some (PStr ''ENABLED'')"
    and "registry_state env url (dict_get d ''groupId'' (PStr ''default''))
           (dict_get d ''artifactId'' PNone) (dict_get d ''version'' PNone) = Inr st"
    and "st \<noteq> ENABLED"
  shows "fs (snd (process_message env url m w)) = fs w
       \<and> filter is_subprocess (trace (snd (process_message env url m w)))
           = filter is_subprocess (trace w)"
proof -
  let ?g = "dict_get d ''groupId'' (PStr ''default'')"
  let ?a = "dict_get d ''artifactId'' PNone"
  let ?v = "dict_get d ''version'' PNone"
  have frame: "fs (snd (get_artifact_content env url ?g ?a ?v (emit (Print l) w))) = fs w
       \<and> filter is_subprocess
           (trace (snd (get_artifact_content env url ?g ?a ?v (emit (Print l) w))))
           = filter is_subprocess (trace w)" for l
    using get_artifact_content_not_enabled [OF assms(3,4), of "emit (Print l) w"]
    by (simp add: emit_def)
  from assms(2) obtain l where
    d: "dispatch env url (PDict d) w = get_artifact_content env url ?g ?a ?v (emit (Print l) w)"
    by (auto simp: dispatch_def Let_def dict_get_def)
  have "snd (process_message env url m w) = snd (dispatch env url (PDict d) w)
      \<or> (\<exists>l. snd (process_message env url m w)
                = emit (Print l) (snd (dispatch env url (PDict d) w)))"
    by (auto simp: process_message_def assms(1) split: prod.splits sum.splits)
  then show ?thesis using frame [of l] d by (auto simp: emit_def)
qed

theorem registry_state_is_authoritative_witness:
  "sample_state ''registry'' (PStr ''shop'') (PStr ''legacy-api'') (PStr ''1'') = Inr DISABLED
   \<and> fs (snd (process_message sample_env ''registry'' (sample_msg ''enabled-legacy'')
              stocked_world)) = fs stocked_world
   \<and> filter is_subprocess (trace (snd (process_message sample_env ''registry''
              (sample_msg ''enabled-legacy'') stocked_world))) = []"
proof -
  let ?d = "[(''eventType'', PStr ''ARTIFACT_VERSION_STATE_CHANGED''),
             (''artifactId'', PStr ''legacy-api''), (''version'', PStr ''1''),
             (''groupId'', PStr ''shop''), (''newState'', PStr ''ENABLED'')]"
  have dec: "decode_payload sample_env (sample_msg ''enabled-legacy'') = Inr (PDict ?d)"
    by (simp add: decode_payload_def sample_defs)
  have st: "registry_state sample_env ''registry'' (dict_get ?d ''groupId'' (PStr ''default''))
           (dict_get ?d ''artifactId'' PNone) (dict_get ?d ''version'' PNone) = Inr DISABLED"
    by (simp add: sample_env_def dict_get_def)
  show ?thesis
    using registry_state_is_authoritative [OF dec _ st, where w = stocked_world]
    by (simp add: stocked_world_def)
qed

section \<open>A state change without its new state\<close>

text \<open>
  Claim C10. An \<open>ARTIFACT_VERSION_STATE_CHANGED\<close> event whose payload has no
  \<open>newState\<close> is handled like a change to a state other than \<open>ENABLED\<close>: the message
  returns normally, the only effect is the printed line that says it is skipped (so no
  registry request, no generation, no write and no deletion), and the rest of the batch
  is processed after it.
\<close>

theorem state_changed_without_newState:
  assumes "decode_payload env m = Inr (PDict d)"
    and "map_of d ''eventType'' = Some (PStr ''ARTIFACT_VERSION_STATE_CHANGED'')"
    and "map_of d ''newState'' = None"
    and "msg_error m = None"
  shows "process_message env url m w =
           (Inr (), emit (Print (LogSkipping (dict_get d ''artifactId'' PNone) PNone)) w)
         \<and> process_messages env url (m # ms) w =
             process_messages env url ms
               (emit (Print (LogSkipping (dict_get d ''artifactId'' PNone) PNone)) w)"
  using assms by (simp add: process_message_def dispatch_def dict_get_def Let_def)

theorem state_changed_without_newState_witness:
  "decode_payload sample_env (sample_msg ''changed'') =
     Inr (event_payload ''ARTIFACT_VERSION_STATE_CHANGED''
            [(''artifactId'', PStr ''orders-api''), (''version'', PStr ''1''),
             (''groupId'', PStr ''shop'')])
   \<and> process_message sample_env ''registry'' (sample_msg ''changed'') empty_world =
       (Inr (), emit (Print (LogSkipping (PStr ''orders-api'') PNone)) empty_world)"
proof -
  let ?d = "[(''eventType'', PStr ''ARTIFACT_VERSION_STATE_CHANGED''),
             (''artifactId'', PStr ''orders-api''), (''version'', PStr ''1''),
             (''groupId'', PStr ''shop'')]"
  have dec: "decode_payload sample_env (sample_msg ''changed'') = Inr (PDict ?d)"
    by (simp add: decode_payload_def sample_defs)
  have "process_message sample_env ''registry'' (sample_msg ''changed'') empty_world =
       (Inr (), emit (Print (LogSkipping (dict_get ?d ''artifactId'' PNone) PNone)) empty_world)"
    using state_changed_without_newState [OF dec, of "''registry''" empty_world "[]"]
    by (simp add: sample_msg_def)
  then show ?thesis using dec by (simp add: dict_get_def event_payload_def)
qed

section \<open>Stripping the status\<close>

lemma dict_pop_other: "k' \<noteq> k \<Longrightarrow> map_of (dict_pop k d) k' = map_of d k'"
  by (induction d) (auto simp: dict_pop_def)

lemma write_text_error: "write_text t cwd p txt = Inl e \<Longrightarrow> e = OSError"
  by (auto simp: write_text_def Let_def split: if_splits)

lemma write_text_at:
  "write_text t cwd p txt = Inr t' \<Longrightarrow> t' (resolve cwd p) = Some (File txt)"
  by (auto simp: write_text_def Let_def split: if_splits)

text \<open>
  Claim C9. When the tool exits normally, its output parses to a dictionary and
  \<^verbatim>\<open>invoke_kuadrant_command\<close> returns normally, the file at the path of that
  coordinate and mode holds the dump of the parsed document without its top-level
  \<open>status\<close>: the key is absent whatever its value was, and every other top-level key
  keeps its value.
\<close>

theorem status_is_stripped:
  assumes "stdin_text env c = Inr inp"
    and "subprocess_run env args inp = Inr out"
    and "yaml_safe_load env out = Inr (PDict d)"
    and "invoke_kuadrant_command env (PStr g) (PStr a) (PStr v) args c mode w = (Inr (), w')"
  shows "fs w' (resolve (getcwd env) (resource_path env g a v mode))
           = Some (File (yaml_dump env (PDict (dict_pop ''status'' d))))
       \<and> map_of (dict_pop ''status'' d) ''status'' = None
       \<and> (\<forall>k. k \<noteq> ''status'' \<longrightarrow> map_of (dict_pop ''status'' d) k = map_of d k)"
proof -
  have "fs w' (resolve (getcwd env) (resource_path env g a v mode))
           = Some (File (yaml_dump env (PDict (dict_pop ''status'' d))))"
    using assms
    by (auto simp: invoke_kuadrant_command_def kuadrant_try_def Let_def resource_path_def
        resource_name_def emit_def
        split: sum.splits if_splits dest: write_text_at write_text_error)
  then show ?thesis by (simp add: dict_pop_absent dict_pop_other)
qed

theorem status_is_stripped_witness:
  "sample_load ''httproute'' = Inr (PDict [(''kind'', PStr ''httproute''), (''status'', PDict [])])
   \<and> fs (snd (invoke_kuadrant_command sample_env (PStr ''shop'') (PStr ''orders-api'') (PStr ''1'')
              httproute_args (CBytes ''orders-api'') ''httproute'' empty_world))
        (orders_dir @ [''1'', ''shop_orders-api_v1_httproute.yaml''])
      = Some (File ''kind: httproute; '')"
proof -
  let ?d = "[(''kind'', PStr ''httproute''), (''status'', PDict [])]"
  let ?run = "invoke_kuadrant_command sample_env (PStr ''shop'') (PStr ''orders-api'') (PStr ''1'')
              httproute_args (CBytes ''orders-api'') ''httproute'' empty_world"
  have 1: "stdin_text sample_env (CBytes ''orders-api'') = Inr (Some ''orders-api'')"
    by (simp add: stdin_text_def sample_env_def)
  have 2: "subprocess_run sample_env httproute_args (Some ''orders-api'') = Inr ''httproute''"
    by (simp add: sample_env_def sample_run_def httproute_args_def)
  have 3: "yaml_safe_load sample_env ''httproute'' = Inr (PDict ?d)"
    by (simp add: sample_env_def sample_load_def)
  have 4: "?run = (Inr (), snd ?run)"
  proof -
    have "fst ?run = Inr ()" by code_simp
    then show ?thesis by (metis prod.collapse)
  qed
  have p: "resolve (getcwd sample_env) (resource_path sample_env ''shop'' ''orders-api'' ''1'' ''httproute'')
     = orders_dir @ [''1'', ''shop_orders-api_v1_httproute.yaml'']"
    by code_simp
  have dmp: "yaml_dump sample_env (PDict (dict_pop ''status'' ?d)) = ''kind: httproute; ''"
    by code_simp
  have ld: "sample_load ''httproute'' = Inr (PDict ?d)"
    by (simp add: sample_load_def)
  from status_is_stripped [OF 1 2 3 4] show ?thesis
    using ld by (simp only: p dmp)
qed

section \<open>One mode failing\<close>

text \<open>
  A non-zero exit of the tool is caught inside \<^verbatim>\<open>invoke_kuadrant_command\<close>: the
  function prints the error and returns normally, so the next mode is run.
\<close>

lemma called_process_error_is_isolated:
  assumes "fspaths [g, a, v] = Inr [gs, as, vs]"
    and "makedirs (fs w) (getcwd env)
           (foldl join2 (dirname (getcwd env)) [api_resources, gs, as, vs]) = Inr t"
    and "stdin_text env c = Inr inp"
    and "subprocess_run env args inp = Inl (CalledProcessError err)"
  shows "invoke_kuadrant_command env g a v args c mode w =
           (Inr (), emit (Print (LogErrorGenerating (CalledProcessError err)))
                      (emit (SubprocessRun args inp) (w\<lparr>fs := t\<rparr>)))"
  using assms by (simp add: invoke_kuadrant_command_def kuadrant_try_def Let_def)

text \<open>
  Claim C2. The three modes are meant to be independent, a failure being printed for its
  mode only. The script does this for a non-zero exit, but not for malformed output:
  \<^verbatim>\<open>yaml.safe_load\<close> raises inside the \<^verbatim>\<open>try\<close> whose only handler is for
  \<^verbatim>\<open>CalledProcessError\<close>, the exception leaves \<^verbatim>\<open>invoke_kuadrant_cli\<close>, and
  the handler of \<^verbatim>\<open>get_artifact_content\<close> prints it for the whole coordinate. In the
  sample environment the \<open>httproute\<close> output of \<open>broken-api\<close> is not YAML: the trace
  shows one run of the tool, no run for \<open>authpolicy\<close> or \<open>ratelimitpolicy\<close>, and the
  line "Failed to retrieve artifact content".
\<close>

theorem malformed_output_stops_the_coordinate:
  "trace (snd (process_message sample_env ''registry'' (sample_msg ''created-broken'') empty_world))
     = [Print (LogVersionCreated (PStr ''ARTIFACT_VERSION_CREATED'') (PStr ''broken-api'') (PStr ''1'')),
        RegistryContent ''registry'' (PStr ''shop'') (PStr ''broken-api'') (PStr ''1''),
        RegistryState ''registry'' (PStr ''shop'') (PStr ''broken-api'') (PStr ''1''),
        SubprocessRun httproute_args (Some ''broken-api''),
        Print (LogFailedToRetrieve (PStr ''broken-api'') (PStr ''1'') YAMLError)]"
  by code_simp

section \<open>Errors that leave the loop\<close>

text \<open>
  Claim C3. Every error of handling one message is meant to be caught, printed and
  skipped. The handlers of \<^verbatim>\<open>process_message\<close> and \<^verbatim>\<open>process_messages\<close> catch
  \<^verbatim>\<open>JSONDecodeError\<close> and \<^verbatim>\<open>KeyError\<close> only, while a field read with
  \<^verbatim>\<open>payload.get\<close> that is missing reaches \<^verbatim>\<open>os.path.join\<close> as \<^verbatim>\<open>None\<close> and
  raises \<^verbatim>\<open>TypeError\<close>. A \<open>VersionDeleted\<close> event without a version ends the
  whole loop: the second message of the batch is never handled, the two empty polls are
  never made, nothing is synchronised; only the consumer is closed.
\<close>

theorem missing_version_aborts_the_loop:
  "consume_messages_in_batches sample_env ''registry'' 10 5 10
     [Inr [sample_msg ''version-deleted-no-version'', sample_msg ''changed''], Inr [], Inr []]
     empty_world
   = (Raised TypeError,
      emit ConsumerClose
        (emit (Print (LogVersionDeleted (PStr ''ARTIFACT_VERSION_DELETED'') (PStr ''orders-api'') PNone))
           (emit (ConsumerConsume 10 5) empty_world)))"
  by (simp add: consume_messages_in_batches_def process_message_def decode_payload_def
      dispatch_def delete_version_def os_path_join_def dict_get_def Let_def sample_defs)

section \<open>Events without an artifact identifier\<close>







section \<open>Where the paths lead\<close>

lemma split_sep_not_Nil [simp]: "split_sep s \<noteq> []"
  by (induction s) (auto split: list.splits)

lemma split_sep_plain: "CHR ''/'' \<notin> set s \<Longrightarrow> split_sep s = [s]"
  by (induction s) auto

lemma split_sep_append: "split_sep (xs @ CHR ''/'' # ys) = split_sep xs @ split_sep ys"
  by (induction xs) (auto split: list.splits)

lemma walk_segment: "segment s \<Longrightarrow> walk acc s = acc @ [s]"
  by (simp add: walk_def segment_def)

lemma walk_Nil: "walk acc [] = acc"
  by (simp add: walk_def)

lemma split_sep_trailing: "split_sep (X @ ''/'') = split_sep X @ [[]]"
  using split_sep_append [of X "[]"] by simp

lemma resolve_sep_segment:
  assumes "segment s"
  shows "resolve cwd (X @ CHR ''/'' # s) = resolve cwd (X @ ''/'') @ [s]"
proof -
  have s: "split_sep s = [s]" using assms by (simp add: split_sep_plain segment_def)
  have hd: "hd (X @ CHR ''/'' # s) = hd (X @ ''/'')" by (cases X) auto
  show ?thesis
    by (simp add: resolve_def hd split_sep_append split_sep_trailing s
        walk_segment [OF assms] walk_Nil)
qed

lemma resolve_trailing_sep:
  assumes "X \<noteq> []"
  shows "resolve cwd (X @ ''/'') = resolve cwd X"
proof -
  have hd: "hd (X @ ''/'') = hd X" using assms by (cases X) auto
  show ?thesis using assms by (simp add: resolve_def hd split_sep_trailing walk_Nil)
qed

lemma resolve_join2:
  assumes "X \<noteq> []" and "segment s"
  shows "resolve cwd (join2 X s) = resolve cwd X @ [s]"
proof -
  have s: "s \<noteq> []" "hd s \<noteq> CHR ''/''"
    using assms(2) by (cases s; auto simp: segment_def)+
  show ?thesis
  proof (cases "last X = CHR ''/''")
    case True
    then have X: "X = butlast X @ ''/''" using assms(1) by (metis append_butlast_last_id)
    have "join2 X s = butlast X @ CHR ''/'' # s"
      using True assms(1) s X by (simp add: join2_def)
    then have "resolve cwd (join2 X s) = resolve cwd (butlast X @ ''/'') @ [s]"
      by (simp add: resolve_sep_segment [OF assms(2)])
    then show ?thesis using X by simp
  next
    case False
    then have "join2 X s = X @ CHR ''/'' # s" using assms(1) s by (simp add: join2_def)
    then show ?thesis
      by (simp add: resolve_sep_segment [OF assms(2)] resolve_trailing_sep [OF assms(1)])
  qed
qed

lemma join2_not_Nil: "segment s \<Longrightarrow> join2 X s \<noteq> []"
  by (auto simp: join2_def segment_def)

lemma wants_dir_join2: 
  assumes "segment s" shows "\<not> wants_dir (join2 X s)"
proof -
  have s: "split_sep s = [s]" using assms by (simp add: split_sep_plain segment_def)
  have "last (split_sep (join2 X s)) = s"
  proof (cases "(s \<noteq> [] \<and> hd s = CHR ''/'') \<or> X = []")
    case True then show ?thesis by (simp add: join2_def s)
  next
    case False
    show ?thesis
    proof (cases "last X = CHR ''/''")
      case True
      with False have X: "X = butlast X @ ''/''" by (metis append_butlast_last_id)
      have "join2 X s = butlast X @ CHR ''/'' # s"
        using True False X by (simp add: join2_def)
      then show ?thesis by (simp add: split_sep_append s)
    next
      case F: False
      with False have "join2 X s = X @ CHR ''/'' # s" by (simp add: join2_def)
      then show ?thesis by (simp add: split_sep_append s)
    qed
  qed
  then show ?thesis using assms by (simp add: wants_dir_def segment_def)
qed

lemma api_root_not_Nil: "join2 base api_resources \<noteq> []"
  by (simp add: join2_def api_resources_def)

lemma resolve_folder:
  assumes "segment g" "segment a" "segment v"
  shows "resolve (getcwd env) (foldl join2 (dirname (getcwd env)) [api_resources, g, a, v])
           = output_root env @ [g, a, v]"
    and "resolve (getcwd env) (foldl join2 (dirname (getcwd env)) [api_resources, g, a])
           = output_root env @ [g, a]"
  using assms
  by (simp_all add: resolve_join2 join2_not_Nil api_root_not_Nil output_root_def)

lemma segment_resource_name:
  assumes "segment g" "segment a" "segment v" "CHR ''/'' \<notin> set mode"
  shows "segment (resource_name g a v mode)"
proof -
  have "length (resource_name g a v mode) > 2" by (simp add: resource_name_def)
  then have "resource_name g a v mode \<noteq> ''.''" "resource_name g a v mode \<noteq> ''..''"
    by auto
  then show ?thesis using assms by (auto simp: segment_def resource_name_def)
qed

lemma resolve_file:
  assumes "segment g" "segment a" "segment v" "CHR ''/'' \<notin> set mode"
  shows "resolve (getcwd env)
           (join2 (foldl join2 (dirname (getcwd env)) [api_resources, g, a, v])
              (resource_name g a v mode))
           = output_root env @ [g, a, v, resource_name g a v mode]"
proof -
  have ne: "foldl join2 (dirname (getcwd env)) [api_resources, g, a, v] \<noteq> []"
    using assms by (simp add: join2_not_Nil)
  show ?thesis
    using resolve_join2 [OF ne segment_resource_name [OF assms]] resolve_folder(1) [OF assms(1-3)]
    by simp
qed

lemma sample_root: "output_root sample_env = [''work'', ''api-resources'', ''api-resources'']"
  by code_simp

section \<open>The scope of a deletion\<close>

lemma delete_version_segments:
  assumes "segment g" "segment a" "segment v" and "fs w = t"
  shows "t (output_root env @ [g, a, v]) = Some Dir \<Longrightarrow>
         delete_version env (PStr g) (PStr a) (PStr v) w =
           (Inr (), emit (Print (LogDeletedDirectory
                        (foldl join2 (dirname (getcwd env)) [api_resources, g, a, v])))
              (w\<lparr>fs := \<lambda>r. if prefix (output_root env @ [g, a, v]) r then None else t r\<rparr>))"
    and "t (output_root env @ [g, a, v]) = None \<Longrightarrow>
         delete_version env (PStr g) (PStr a) (PStr v) w =
           (Inr (), emit (Print (LogDirectoryMissing
                        (foldl join2 (dirname (getcwd env)) [api_resources, g, a, v]))) w)"
  using resolve_folder(1) [OF assms(1-3), of env] assms(4)
  by (auto simp: delete_version_def os_path_join_def os_path_exists_def rmtree_def
      is_dir_def is_file_def Let_def)

lemma delete_artifact_segments:
  assumes "segment g" "segment a" and "fs w = t"
  shows "t (output_root env @ [g, a]) = Some Dir \<Longrightarrow>
         delete_artifact_directory env (PStr g) (PStr a) w =
           (Inr (), emit (Print (LogDeletedArtifactDirectory
                        (foldl join2 (dirname (getcwd env)) [api_resources, g, a])))
              (w\<lparr>fs := \<lambda>r. if prefix (output_root env @ [g, a]) r then None else t r\<rparr>))"
    and "t (output_root env @ [g, a]) = None \<Longrightarrow>
         delete_artifact_directory env (PStr g) (PStr a) w =
           (Inr (), emit (Print (LogArtifactDirectoryMissing
                        (foldl join2 (dirname (getcwd env)) [api_resources, g, a]))) w)"
  using resolve_folder(2) [OF assms(1,2,2), of env] assms(3)
  by (auto simp: delete_artifact_directory_def os_path_join_def os_path_exists_def rmtree_def
      is_dir_def is_file_def Let_def)

text \<open>
  Claim C6, as amended. For a group, an artifact identifier and a version that are
  single path segments: an \<open>ArtifactDeleted\<close> event whose artifact directory exists
  removes that directory with everything below it (every version) and nothing else; a
  \<open>VersionDeleted\<close> event whose version directory exists removes that directory with
  everything below it and nothing else, so the other versions of the artifact are
  unchanged; and when the target is absent the event only prints that it is.
\<close>

theorem deletion_scope:
  assumes "segment g" "segment a" "segment v"
    and "decode_payload env m = Inr (PDict d)"
    and "dict_get d ''groupId'' (PStr ''default'') = PStr g"
    and "map_of d ''artifactId'' = Some (PStr a)"
  shows "(map_of d ''eventType'' = Some (PStr ''ARTIFACT_DELETED'')
          \<and> fs w (output_root env @ [g, a]) = Some Dir \<longrightarrow>
            fst (process_message env url m w) = Inr ()
            \<and> fs (snd (process_message env url m w))
                = (\<lambda>r. if prefix (output_root env @ [g, a]) r then None else fs w r)
            \<and> (\<forall>v' r. fs (snd (process_message env url m w)) (output_root env @ [g, a, v'] @ r)
                  = None))
       \<and> (map_of d ''eventType'' = Some (PStr ''ARTIFACT_VERSION_DELETED'')
          \<and> map_of d ''version'' = Some (PStr v)
          \<and> fs w (output_root env @ [g, a, v]) = Some Dir \<longrightarrow>
            fst (process_message env url m w) = Inr ()
            \<and> fs (snd (process_message env url m w))
                = (\<lambda>r. if prefix (output_root env @ [g, a, v]) r then None else fs w r)
            \<and> (\<forall>v' r. v' \<noteq> v \<longrightarrow>
                  fs (snd (process_message env url m w)) (output_root env @ [g, a, v'] @ r)
                    = fs w (output_root env @ [g, a, v'] @ r)))
       \<and> (map_of d ''eventType'' = Some (PStr ''ARTIFACT_DELETED'')
          \<and> fs w (output_root env @ [g, a]) = None \<longrightarrow>
            process_message env url m w =
              (Inr (), emit (Print (LogArtifactDirectoryMissing
                         (foldl join2 (dirname (getcwd env)) [api_resources, g, a])))
                 (emit (Print (LogArtifactDeleted (PStr ''ARTIFACT_DELETED'') (PStr a))) w)))
       \<and> (map_of d ''eventType'' = Some (PStr ''ARTIFACT_VERSION_DELETED'')
          \<and> map_of d ''version'' = Some (PStr v)
          \<and> fs w (output_root env @ [g, a, v]) = None \<longrightarrow>
            process_message env url m w =
              (Inr (), emit (Print (LogDirectoryMissing
                         (foldl join2 (dirname (getcwd env)) [api_resources, g, a, v])))
                 (emit (Print (LogVersionDeleted (PStr ''ARTIFACT_VERSION_DELETED'') (PStr a)
                    (PStr v))) w)))"
proof -
  let ?pm = "process_message env url m w"
  let ?A = "output_root env @ [g, a]"
  let ?V = "output_root env @ [g, a, v]"
  have a: "dict_get d ''artifactId'' PNone = PStr a"
    using assms(6) by (simp add: dict_get_def)
  have e: "fs (emit x w) = fs w" for x by (simp add: emit_def)
  have da: "dispatch env url (PDict d) w = delete_artifact_directory env (PStr g) (PStr a)
        (emit (Print (LogArtifactDeleted (PStr ''ARTIFACT_DELETED'') (PStr a))) w)"
    if "map_of d ''eventType'' = Some (PStr ''ARTIFACT_DELETED'')"
    using that assms(5) a by (simp add: dispatch_def Let_def) (simp add: dict_get_def)
  have dv: "dispatch env url (PDict d) w = delete_version env (PStr g) (PStr a) (PStr v)
        (emit (Print (LogVersionDeleted (PStr ''ARTIFACT_VERSION_DELETED'') (PStr a) (PStr v))) w)"
    if "map_of d ''eventType'' = Some (PStr ''ARTIFACT_VERSION_DELETED'')"
      and "map_of d ''version'' = Some (PStr v)"
    using that assms(5) a by (simp add: dispatch_def Let_def) (simp add: dict_get_def)
  have pm: "?pm = (Inr (), w1)" if "dispatch env url (PDict d) w = (Inr (), w1)" for w1
    using that by (simp add: process_message_def assms(4))
  have A1: "?pm = (Inr (), emit (Print (LogDeletedArtifactDirectory
                        (foldl join2 (dirname (getcwd env)) [api_resources, g, a])))
              (emit (Print (LogArtifactDeleted (PStr ''ARTIFACT_DELETED'') (PStr a))) w
                 \<lparr>fs := \<lambda>r. if prefix ?A r then None else fs w r\<rparr>))"
    if "map_of d ''eventType'' = Some (PStr ''ARTIFACT_DELETED'')" "fs w ?A = Some Dir"
    using delete_artifact_segments(1) [OF assms(1,2) e, where env = env]
      that(2) da [OF that(1)]
    by (intro pm) simp
  have A2: "?pm = (Inr (), emit (Print (LogArtifactDirectoryMissing
                         (foldl join2 (dirname (getcwd env)) [api_resources, g, a])))
                 (emit (Print (LogArtifactDeleted (PStr ''ARTIFACT_DELETED'') (PStr a))) w))"
    if "map_of d ''eventType'' = Some (PStr ''ARTIFACT_DELETED'')" "fs w ?A = None"
    using delete_artifact_segments(2) [OF assms(1,2) e, where env = env]
      that(2) da [OF that(1)]
    by (intro pm) simp
  have V1: "?pm = (Inr (), emit (Print (LogDeletedDirectory
                        (foldl join2 (dirname (getcwd env)) [api_resources, g, a, v])))
              (emit (Print (LogVersionDeleted (PStr ''ARTIFACT_VERSION_DELETED'') (PStr a)
                 (PStr v))) w
                 \<lparr>fs := \<lambda>r. if prefix ?V r then None else fs w r\<rparr>))"
    if "map_of d ''eventType'' = Some (PStr ''ARTIFACT_VERSION_DELETED'')"
      "map_of d ''version'' = Some (PStr v)" "fs w ?V = Some Dir"
    using delete_version_segments(1) [OF assms(1,2,3) e, where env = env]
      that(3) dv [OF that(1,2)]
    by (intro pm) simp
  have V2: "?pm = (Inr (), emit (Print (LogDirectoryMissing
                         (foldl join2 (dirname (getcwd env)) [api_resources, g, a, v])))
                 (emit (Print (LogVersionDeleted (PStr ''ARTIFACT_VERSION_DELETED'') (PStr a)
                    (PStr v))) w))"
    if "map_of d ''eventType'' = Some (PStr ''ARTIFACT_VERSION_DELETED'')"
      "map_of d ''version'' = Some (PStr v)" "fs w ?V = None"
    using delete_version_segments(2) [OF assms(1,2,3) e, where env = env]
      that(3) dv [OF that(1,2)]
    by (intro pm) simp
  have sib: "\<not> prefix ?V (output_root env @ [g, a, v'] @ r)" if "v' \<noteq> v" for v' r
    using that by simp
  have sub: "prefix ?A (output_root env @ [g, a, v'] @ r)" for v' r
    by simp
  show ?thesis
    using A1 A2 V1 V2 sib sub by (simp add: emit_def)
qed

theorem deletion_scope_witness:
  "segment ''shop'' \<and> segment ''orders-api'' \<and> segment ''1''
   \<and> fs stocked_world (orders_dir @ [''1'']) = Some Dir
   \<and> fst (process_message sample_env ''registry'' (sample_msg ''version-deleted'') stocked_world)
       = Inr ()
   \<and> fs (snd (process_message sample_env ''registry'' (sample_msg ''version-deleted'')
        stocked_world)) (orders_dir @ [''1'', ''shop_orders-api_v1_httproute.yaml'']) = None
   \<and> fs (snd (process_message sample_env ''registry'' (sample_msg ''version-deleted'')
        stocked_world)) (orders_dir @ [''2'', ''shop_orders-api_v2_httproute.yaml''])
       = Some (File ''kind: httproute; '')
   \<and> fs (snd (process_message sample_env ''registry'' (sample_msg ''artifact-deleted'')
        stocked_world)) (orders_dir @ [''2'', ''shop_orders-api_v2_httproute.yaml'']) = None
   \<and> trace (snd (process_message sample_env ''registry'' (sample_msg ''version-deleted'')
        empty_world))
       = [Print (LogVersionDeleted (PStr ''ARTIFACT_VERSION_DELETED'') (PStr ''orders-api'')
            (PStr ''1'')),
          Print (LogDirectoryMissing ''/work/api-resources/api-resources/shop/orders-api/1'')]"
proof -
  let ?d = "[(''eventType'', PStr ''ARTIFACT_VERSION_DELETED''),
             (''artifactId'', PStr ''orders-api''), (''version'', PStr ''1''),
             (''groupId'', PStr ''shop'')]"
  let ?da = "[(''eventType'', PStr ''ARTIFACT_DELETED''),
             (''artifactId'', PStr ''orders-api''), (''groupId'', PStr ''shop'')]"
  have seg: "segment ''shop''" "segment ''orders-api''" "segment ''1''"
    by (simp_all add: segment_def)
  have dec: "decode_payload sample_env (sample_msg ''version-deleted'') = Inr (PDict ?d)"
    by (simp add: decode_payload_def sample_defs)
  have deca: "decode_payload sample_env (sample_msg ''artifact-deleted'') = Inr (PDict ?da)"
    by (simp add: decode_payload_def sample_defs)
  have g: "dict_get ?d ''groupId'' (PStr ''default'') = PStr ''shop''"
    and ga: "dict_get ?da ''groupId'' (PStr ''default'') = PStr ''shop''"
    by (simp_all add: dict_get_def)
  have a: "map_of ?d ''artifactId'' = Some (PStr ''orders-api'')"
    and aa: "map_of ?da ''artifactId'' = Some (PStr ''orders-api'')" by simp_all
  have root: "output_root sample_env @ [''shop'', ''orders-api''] = orders_dir"
    by (simp add: sample_root orders_dir_def)
  have dir: "fs stocked_world (orders_dir @ [''1'']) = Some Dir"
    "fs stocked_world orders_dir = Some Dir"
    by (simp_all add: stocked_world_def two_versions_def orders_dir_def)
  have keep: "fs stocked_world (orders_dir @ [''2'', ''shop_orders-api_v2_httproute.yaml''])
       = Some (File ''kind: httproute; '')"
    by (simp add: stocked_world_def two_versions_def orders_dir_def)
  have none: "fs empty_world p = None" for p by (simp add: empty_world_def)
  have path: "foldl join2 (dirname (getcwd sample_env))
                [api_resources, ''shop'', ''orders-api'', ''1'']
              = ''/work/api-resources/api-resources/shop/orders-api/1''"
    by code_simp
  have 1: "fst (process_message sample_env ''registry'' (sample_msg ''version-deleted'')
              stocked_world) = Inr ()
     \<and> fs (snd (process_message sample_env ''registry'' (sample_msg ''version-deleted'')
        stocked_world)) (orders_dir @ [''1'', ''shop_orders-api_v1_httproute.yaml'']) = None
     \<and> fs (snd (process_message sample_env ''registry'' (sample_msg ''version-deleted'')
        stocked_world)) (orders_dir @ [''2'', ''shop_orders-api_v2_httproute.yaml''])
       = Some (File ''kind: httproute; '')"
    using deletion_scope [OF seg dec g a, of stocked_world "''registry''"] dir keep root
    by (simp add: orders_dir_def sample_root)
  have 2: "fs (snd (process_message sample_env ''registry'' (sample_msg ''artifact-deleted'')
        stocked_world)) (orders_dir @ [''2'', ''shop_orders-api_v2_httproute.yaml'']) = None"
    using deletion_scope [OF seg deca ga aa, of stocked_world "''registry''"] dir root
    by (simp add: orders_dir_def sample_root)
  have 3: "trace (snd (process_message sample_env ''registry'' (sample_msg ''version-deleted'')
        empty_world))
       = [Print (LogVersionDeleted (PStr ''ARTIFACT_VERSION_DELETED'') (PStr ''orders-api'')
            (PStr ''1'')),
          Print (LogDirectoryMissing ''/work/api-resources/api-resources/shop/orders-api/1'')]"
    using deletion_scope [OF seg dec g a, of empty_world "''registry''"] none
    by (simp only: path) (simp add: emit_def empty_world_def)
  show ?thesis using seg dir(1) 1 2 3 by simp
qed

text \<open>
  Claim C6 as stated fails for identifiers that are not path segments: a
  \<open>VersionDeleted\<close> event whose version is the empty string makes
  \<^verbatim>\<open>os.path.join\<close> return the artifact directory with a trailing separator, and
  removing it takes version \<open>2\<close> along.
\<close>

theorem empty_version_removes_all_versions:
  "fs stocked_world (orders_dir @ [''2'']) = Some Dir
   \<and> fst (process_message sample_env ''registry'' (sample_msg ''version-deleted-empty'')
          stocked_world) = Inr ()
   \<and> fs (snd (process_message sample_env ''registry'' (sample_msg ''version-deleted-empty'')
          stocked_world)) (orders_dir @ [''2'']) = None"
  by code_simp

section \<open>Replaying an event\<close>

lemma blocked_iff: "list_ex (is_file t) (prefixes P) = (\<exists>r. prefix r P \<and> is_file t r)"
  by (auto simp: list_ex_iff in_set_prefixes)

lemma ready_not_blocked: "ready P t \<Longrightarrow> \<not> list_ex (is_file t) (prefixes P)"
  by (auto simp: blocked_iff ready_def is_file_def)

lemma ready_with_dirs: "ready P t \<Longrightarrow> with_dirs P t = t"
  by (auto simp: ready_def with_dirs_def fun_eq_iff)

lemma with_dirs_ready: "\<not> list_ex (is_file t) (prefixes P) \<Longrightarrow> ready P (with_dirs P t)"
  unfolding blocked_iff ready_def with_dirs_def is_file_def
  by (auto split: option.splits node.splits) (metis node.exhaust option.exhaust)

lemma ready_update: "ready P t \<Longrightarrow> ready P (t(P @ [n] \<mapsto> x))"
  by (auto simp: ready_def)

lemma gen_fs_ready:
  "ready P t \<Longrightarrow> gen_fs P n res t =
     (case res of
        Inl e \<Rightarrow> (if is_CalledProcessError e then Inr () else Inl e, t)
      | Inr txt \<Rightarrow> if t (P @ [n]) = Some Dir then (Inl OSError, t)
                   else (Inr (), t(P @ [n] \<mapsto> File txt)))"
  by (cases res) (simp_all add: gen_fs_def ready_not_blocked ready_with_dirs)

lemma gen_fs_cases:
  assumes "gen_fs P n res t = (out, t')"
  shows "(t' = t \<and> out = Inl OSError \<and> list_ex (is_file t) (prefixes P)) \<or> ready P t'"
  using assms
  by (auto simp: gen_fs_def with_dirs_ready ready_update split: if_splits sum.splits)

lemma gen_fs_unblocked:
  assumes "\<not> list_ex (is_file t) (prefixes P)"
  shows "gen_fs P n res t = gen_fs P n res (with_dirs P t)"
  unfolding gen_fs_ready [OF with_dirs_ready [OF assms]]
  by (simp add: gen_fs_def assms split: sum.splits)

lemma gen_fs_again:
  assumes "gen_fs P n res t = (out, t')"
  shows "gen_fs P n res t' = (out, t')"
proof (cases "list_ex (is_file t) (prefixes P)")
  case True
  with assms show ?thesis by (auto simp: gen_fs_def)
next
  case False
  from gen_fs_cases [OF assms] False have r': "ready P t'" by auto
  have r: "ready P (with_dirs P t)" using False by (rule with_dirs_ready)
  from assms have "gen_fs P n res (with_dirs P t) = (out, t')"
    by (simp add: gen_fs_unblocked [OF False])
  then show ?thesis
    unfolding gen_fs_ready [OF r] gen_fs_ready [OF r']
    by (cases res) (auto split: if_splits)
qed

lemma gen_fs_kept:
  assumes "gen_fs P n res t = (out, t)" and "gen_fs P n' res' t = (out', t')" and "n \<noteq> n'"
  shows "gen_fs P n res t' = (out, t')"
proof (cases "list_ex (is_file t) (prefixes P)")
  case True
  with assms show ?thesis by (auto simp: gen_fs_def)
next
  case False
  from gen_fs_cases [OF assms(1)] False have r: "ready P t" by auto
  from gen_fs_cases [OF assms(2)] False have r': "ready P t'" by auto
  from assms(2) have t': "t' = t \<or> (\<exists>body. t' = t(P @ [n'] \<mapsto> File body))"
    unfolding gen_fs_ready [OF r] by (cases res') (auto split: if_splits)
  from assms(1) have fixed: "(case res of
        Inl e \<Rightarrow> (if is_CalledProcessError e then Inr () else Inl e, t)
      | Inr body \<Rightarrow> if t (P @ [n]) = Some Dir then (Inl OSError, t)
                   else (Inr (), t(P @ [n] \<mapsto> File body))) = (out, t)"
    unfolding gen_fs_ready [OF r] .
  show ?thesis
  proof (cases res)
    case (Inl e)
    with fixed show ?thesis by (simp add: gen_fs_ready [OF r'])
  next
    case (Inr body)
    show ?thesis
    proof (cases "t (P @ [n]) = Some Dir")
      case True
      with fixed Inr t' assms(3) show ?thesis by (auto simp: gen_fs_ready [OF r'])
    next
      case F: False
      with fixed Inr have "out = Inr ()" "t(P @ [n] \<mapsto> File body) = t" by auto
      then have "t (P @ [n]) = Some (File body)" by (metis fun_upd_same)
      with t' assms(3) have "t' (P @ [n]) = Some (File body)" by auto
      then have "t'(P @ [n] \<mapsto> File body) = t'" by (rule map_upd_triv)
      with \<open>t' (P @ [n]) = Some (File body)\<close> \<open>out = Inr ()\<close> Inr show ?thesis
        by (simp add: gen_fs_ready [OF r'])
    qed
  qed
qed

lemma makedirs_segments:
  assumes "segment g" "segment a" "segment v"
  shows "makedirs t (getcwd env) (foldl join2 (dirname (getcwd env)) [api_resources, g, a, v])
     = (if list_ex (is_file t) (prefixes (output_root env @ [g, a, v])) then Inl OSError
        else Inr (with_dirs (output_root env @ [g, a, v]) t))"
  using resolve_folder(1) [OF assms, of env]
  by (simp add: makedirs_def with_dirs_def Let_def)

lemma write_text_segments:
  assumes "segment g" "segment a" "segment v" "CHR ''/'' \<notin> set mode"
    and "ready (output_root env @ [g, a, v]) t"
  shows "write_text t (getcwd env) (resource_path env g a v mode) body
     = (if t (output_root env @ [g, a, v] @ [resource_name g a v mode]) = Some Dir
        then Inl OSError
        else Inr (t(output_root env @ [g, a, v] @ [resource_name g a v mode] \<mapsto> File body)))"
proof -
  have q: "resolve (getcwd env) (resource_path env g a v mode)
             = output_root env @ [g, a, v] @ [resource_name g a v mode]"
    using resolve_file [OF assms(1-4), of env] by (simp add: resource_path_def)
  have w: "\<not> wants_dir (resource_path env g a v mode)"
    unfolding resource_path_def
    by (rule wants_dir_join2 [OF segment_resource_name [OF assms(1-4)]])
  have p: "t (output_root env @ [g, a, v]) = Some Dir"
    using assms(5) by (simp add: ready_def)
  have b: "butlast (output_root env @ [g, a, v] @ [resource_name g a v mode])
             = output_root env @ [g, a, v]"
    by (simp add: butlast_append)
  show ?thesis
    unfolding write_text_def Let_def q b using w p by (simp add: is_dir_def)
qed

lemma kuadrant_try_rendered:
  "fst (kuadrant_try env args c fp w) =
     (case rendered env args c of
        Inl e \<Rightarrow> Inl e
      | Inr body \<Rightarrow> (case write_text (fs w) (getcwd env) fp body of
                       Inl e \<Rightarrow> Inl e | Inr t \<Rightarrow> Inr ()))"
  "fs (snd (kuadrant_try env args c fp w)) =
     (case rendered env args c of
        Inl e \<Rightarrow> fs w
      | Inr body \<Rightarrow> (case write_text (fs w) (getcwd env) fp body of
                       Inl e \<Rightarrow> fs w | Inr t \<Rightarrow> t))"
  by (simp_all add: kuadrant_try_def rendered_def Let_def emit_def split: sum.splits)

lemma invoke_kuadrant_command_unfold:
  "invoke_kuadrant_command env (PStr g) (PStr a) (PStr v) args c mode w =
     (case makedirs (fs w) (getcwd env)
             (foldl join2 (dirname (getcwd env)) [api_resources, g, a, v]) of
        Inl e \<Rightarrow> (Inl e, w)
      | Inr t \<Rightarrow>
          (case kuadrant_try env args c (resource_path env g a v mode) (w\<lparr>fs := t\<rparr>) of
             (Inl e, w2) \<Rightarrow>
               if is_CalledProcessError e
               then (Inr (), emit (Print (LogErrorGenerating e)) w2)
               else (Inl e, w2)
           | (Inr u, w2) \<Rightarrow> (Inr u, w2)))"
  by (simp add: invoke_kuadrant_command_def Let_def resource_path_def resource_name_def
      split: sum.splits)

lemma invoke_kuadrant_command_gen:
  assumes "segment g" "segment a" "segment v" "CHR ''/'' \<notin> set mode"
  shows "fst (invoke_kuadrant_command env (PStr g) (PStr a) (PStr v) args c mode w)
           = fst (gen_fs (output_root env @ [g, a, v]) (resource_name g a v mode)
                   (rendered env args c) (fs w))"
    and "fs (snd (invoke_kuadrant_command env (PStr g) (PStr a) (PStr v) args c mode w))
           = snd (gen_fs (output_root env @ [g, a, v]) (resource_name g a v mode)
                   (rendered env args c) (fs w))"
proof -
  let ?P = "output_root env @ [g, a, v]"
  let ?n = "resource_name g a v mode"
  let ?r = "invoke_kuadrant_command env (PStr g) (PStr a) (PStr v) args c mode w"
  have "fst ?r = fst (gen_fs ?P ?n (rendered env args c) (fs w))
      \<and> fs (snd ?r) = snd (gen_fs ?P ?n (rendered env args c) (fs w))"
  proof (cases "list_ex (is_file (fs w)) (prefixes ?P)")
    case True
    then show ?thesis
      unfolding invoke_kuadrant_command_unfold makedirs_segments [OF assms(1-3)]
      by (simp add: gen_fs_def)
  next
    case False
    let ?t1 = "with_dirs ?P (fs w)"
    let ?w1 = "w\<lparr>fs := ?t1\<rparr>"
    let ?k = "kuadrant_try env args c (resource_path env g a v mode) ?w1"
    have r: "ready ?P ?t1" using False by (rule with_dirs_ready)
    have wt: "write_text ?t1 (getcwd env) (resource_path env g a v mode) body
       = (if ?t1 (?P @ [?n]) = Some Dir then Inl OSError
          else Inr (?t1(?P @ [?n] \<mapsto> File body)))" for body
      using write_text_segments [OF assms r] by simp
    have k1: "fst ?k = (case rendered env args c of Inl e \<Rightarrow> Inl e
                | Inr body \<Rightarrow> if ?t1 (?P @ [?n]) = Some Dir then Inl OSError else Inr ())"
      and k2: "fs (snd ?k) = (case rendered env args c of Inl e \<Rightarrow> ?t1
                | Inr body \<Rightarrow> if ?t1 (?P @ [?n]) = Some Dir then ?t1
                             else ?t1(?P @ [?n] \<mapsto> File body))"
      by (simp_all add: kuadrant_try_rendered wt split: sum.splits)
    have u: "?r = (case ?k of
             (Inl e, w2) \<Rightarrow>
               if is_CalledProcessError e
               then (Inr (), emit (Print (LogErrorGenerating e)) w2)
               else (Inl e, w2)
           | (Inr u, w2) \<Rightarrow> (Inr u, w2))"
      unfolding invoke_kuadrant_command_unfold makedirs_segments [OF assms(1-3)]
      using False by simp
    have g: "gen_fs ?P ?n (rendered env args c) (fs w) =
        (case rendered env args c of
              Inl e \<Rightarrow> (if is_CalledProcessError e then Inr () else Inl e, ?t1)
            | Inr body \<Rightarrow>
                if ?t1 (?P @ [?n]) = Some Dir then (Inl OSError, ?t1)
                else (Inr (), ?t1(?P @ [?n] \<mapsto> File body)))"
      using False by (simp add: gen_fs_def)
    obtain o1 w2 where k: "?k = (o1, w2)" by (cases ?k)
    from k k1 k2 have o1: "o1 = (case rendered env args c of Inl e \<Rightarrow> Inl e
                | Inr body \<Rightarrow> if ?t1 (?P @ [?n]) = Some Dir then Inl OSError else Inr ())"
      and w2: "fs w2 = (case rendered env args c of Inl e \<Rightarrow> ?t1
                | Inr body \<Rightarrow> if ?t1 (?P @ [?n]) = Some Dir then ?t1
                             else ?t1(?P @ [?n] \<mapsto> File body))"
      by simp_all
    show ?thesis
      unfolding u k g using o1 w2
      by (cases "rendered env args c") (auto simp: emit_def split: sum.splits)
  qed
  then show "fst ?r = fst (gen_fs ?P ?n (rendered env args c) (fs w))"
    and "fs (snd ?r) = snd (gen_fs ?P ?n (rendered env args c) (fs w))"
    by simp_all
qed

lemma invoke_kuadrant_cli_gen:
  assumes "segment g" "segment a" "segment v"
  shows "fst (invoke_kuadrant_cli env (PStr g) (PStr a) (PStr v) c w)
           = fst (cli_fs env g a v c (fs w))
       \<and> fs (snd (invoke_kuadrant_cli env (PStr g) (PStr a) (PStr v) c w))
           = snd (cli_fs env g a v c (fs w))"
proof -
  have m: "CHR ''/'' \<notin> set ''httproute''" "CHR ''/'' \<notin> set ''authpolicy''"
    "CHR ''/'' \<notin> set ''ratelimiting_policy''" by simp_all
  note g1 = invoke_kuadrant_command_gen [OF assms m(1), of env]
  note g2 = invoke_kuadrant_command_gen [OF assms m(2), of env]
  note g3 = invoke_kuadrant_command_gen [OF assms m(3), of env]
  let ?c1 = "invoke_kuadrant_command env (PStr g) (PStr a) (PStr v) httproute_args c
               ''httproute'' w"
  obtain o1 w1 where c1: "?c1 = (o1, w1)" by (cases ?c1)
  let ?c2 = "invoke_kuadrant_command env (PStr g) (PStr a) (PStr v) authpolicy_args c
               ''authpolicy'' w1"
  obtain o2 w2 where c2: "?c2 = (o2, w2)" by (cases ?c2)
  let ?c3 = "invoke_kuadrant_command env (PStr g) (PStr a) (PStr v) ratelimitpolicy_args c
               ''ratelimiting_policy'' w2"
  obtain o3 w3 where c3: "?c3 = (o3, w3)" by (cases ?c3)
  have e1: "gen_fs (output_root env @ [g, a, v]) (resource_name g a v ''httproute'')
             (rendered env httproute_args c) (fs w) = (o1, fs w1)"
    using g1 [of httproute_args c w] c1 by (simp add: prod_eq_iff)
  have e2: "gen_fs (output_root env @ [g, a, v]) (resource_name g a v ''authpolicy'')
             (rendered env authpolicy_args c) (fs w1) = (o2, fs w2)"
    using g2 [of authpolicy_args c w1] c2 by (simp add: prod_eq_iff)
  have e3: "gen_fs (output_root env @ [g, a, v]) (resource_name g a v ''ratelimiting_policy'')
             (rendered env ratelimitpolicy_args c) (fs w2) = (o3, fs w3)"
    using g3 [of ratelimitpolicy_args c w2] c3 by (simp add: prod_eq_iff)
  show ?thesis
    by (simp add: invoke_kuadrant_cli_def cli_fs_def c1 c2 c3 e1 e2 e3 split: sum.splits)
qed

lemma resource_names_differ:
  "resource_name g a v ''httproute'' \<noteq> resource_name g a v ''authpolicy''"
  "resource_name g a v ''httproute'' \<noteq> resource_name g a v ''ratelimiting_policy''"
  "resource_name g a v ''authpolicy'' \<noteq> resource_name g a v ''ratelimiting_policy''"
  by (simp_all add: resource_name_def)

lemma cli_fs_again:
  assumes "cli_fs env g a v c t = (out, t')"
  shows "cli_fs env g a v c t' = (out, t')"
proof -
  let ?P = "output_root env @ [g, a, v]"
  let ?g1 = "gen_fs ?P (resource_name g a v ''httproute'') (rendered env httproute_args c)"
  let ?g2 = "gen_fs ?P (resource_name g a v ''authpolicy'') (rendered env authpolicy_args c)"
  let ?g3 = "gen_fs ?P (resource_name g a v ''ratelimiting_policy'')
               (rendered env ratelimitpolicy_args c)"
  obtain o1 t1 where s1: "?g1 t = (o1, t1)" by (cases "?g1 t")
  have f1: "?g1 t1 = (o1, t1)" by (rule gen_fs_again [OF s1])
  show ?thesis
  proof (cases o1)
    case (Inl e)
    with assms s1 have "out = Inl e" "t' = t1" by (simp_all add: cli_fs_def)
    then show ?thesis using f1 Inl by (simp add: cli_fs_def)
  next
    case r1: (Inr u1)
    obtain o2 t2 where s2: "?g2 t1 = (o2, t2)" by (cases "?g2 t1")
    have f2: "?g2 t2 = (o2, t2)" by (rule gen_fs_again [OF s2])
    have f12: "?g1 t2 = (o1, t2)"
      by (rule gen_fs_kept [OF f1 s2 resource_names_differ(1)])
    show ?thesis
    proof (cases o2)
      case (Inl e)
      with assms s1 r1 s2 have "out = Inl e" "t' = t2" by (simp_all add: cli_fs_def)
      then show ?thesis using f12 f2 r1 Inl by (simp add: cli_fs_def)
    next
      case r2: (Inr u2)
      obtain o3 t3 where s3: "?g3 t2 = (o3, t3)" by (cases "?g3 t2")
      have f3: "?g3 t3 = (o3, t3)" by (rule gen_fs_again [OF s3])
      have f13: "?g1 t3 = (o1, t3)"
        by (rule gen_fs_kept [OF f12 s3 resource_names_differ(2)])
      have f23: "?g2 t3 = (o2, t3)"
        by (rule gen_fs_kept [OF f2 s3 resource_names_differ(3)])
      from assms s1 r1 s2 r2 s3 have "out = o3" "t' = t3" by (simp_all add: cli_fs_def)
      then show ?thesis using f13 f23 f3 r1 r2 by (simp add: cli_fs_def)
    qed
  qed
qed

lemma touched_refl: "touched env g a v t t"
  by (simp add: touched_def)

lemma touched_trans:
  assumes "touched env g a v t t1" "touched env g a v t1 t2"
  shows "touched env g a v t t2"
  unfolding touched_def
proof
  fix p
  from assms(2) have "t2 p = t1 p
          \<or> (p \<noteq> [] \<and> prefix p (output_root env @ [g, a, v]) \<and> t2 p = Some Dir)
          \<or> (\<exists>mode \<in> {''httproute'', ''authpolicy'', ''ratelimiting_policy''}.
               p = output_root env @ [g, a, v, resource_name g a v mode]
               \<and> (\<exists>body. t2 p = Some (File body)))"
    unfolding touched_def by blast
  moreover from assms(1) have "t1 p = t p
          \<or> (p \<noteq> [] \<and> prefix p (output_root env @ [g, a, v]) \<and> t1 p = Some Dir)
          \<or> (\<exists>mode \<in> {''httproute'', ''authpolicy'', ''ratelimiting_policy''}.
               p = output_root env @ [g, a, v, resource_name g a v mode]
               \<and> (\<exists>body. t1 p = Some (File body)))"
    unfolding touched_def by blast
  ultimately show "t2 p = t p
          \<or> (p \<noteq> [] \<and> prefix p (output_root env @ [g, a, v]) \<and> t2 p = Some Dir)
          \<or> (\<exists>mode \<in> {''httproute'', ''authpolicy'', ''ratelimiting_policy''}.
               p = output_root env @ [g, a, v, resource_name g a v mode]
               \<and> (\<exists>body. t2 p = Some (File body)))"
    by metis
qed

lemma gen_fs_touched:
  assumes "gen_fs (output_root env @ [g, a, v]) (resource_name g a v mode) res t = (out, t')"
    and "mode \<in> {''httproute'', ''authpolicy'', ''ratelimiting_policy''}"
  shows "touched env g a v t t'"
proof -
  have "t' = t \<or> t' = with_dirs (output_root env @ [g, a, v]) t
      \<or> (\<exists>body. t' = (with_dirs (output_root env @ [g, a, v]) t)
            (output_root env @ [g, a, v] @ [resource_name g a v mode] \<mapsto> File body))"
    using assms(1) by (auto simp: gen_fs_def split: if_splits sum.splits)
  then show ?thesis
  proof (elim disjE exE)
    assume "t' = t"
    then show ?thesis by (simp add: touched_refl)
  next
    assume "t' = with_dirs (output_root env @ [g, a, v]) t"
    then show ?thesis by (simp add: touched_def with_dirs_def)
  next
    fix body
    assume "t' = (with_dirs (output_root env @ [g, a, v]) t)
            (output_root env @ [g, a, v] @ [resource_name g a v mode] \<mapsto> File body)"
    then show ?thesis using assms(2) by (auto simp: touched_def with_dirs_def)
  qed
qed

lemma cli_fs_touched:
  assumes "cli_fs env g a v c t = (out, t')"
  shows "touched env g a v t t'"
proof -
  let ?P = "output_root env @ [g, a, v]"
  let ?g1 = "gen_fs ?P (resource_name g a v ''httproute'') (rendered env httproute_args c)"
  let ?g2 = "gen_fs ?P (resource_name g a v ''authpolicy'') (rendered env authpolicy_args c)"
  let ?g3 = "gen_fs ?P (resource_name g a v ''ratelimiting_policy'')
               (rendered env ratelimitpolicy_args c)"
  obtain o1 t1 where s1: "?g1 t = (o1, t1)" by (cases "?g1 t")
  obtain o2 t2 where s2: "?g2 t1 = (o2, t2)" by (cases "?g2 t1")
  obtain o3 t3 where s3: "?g3 t2 = (o3, t3)" by (cases "?g3 t2")
  have 1: "touched env g a v t t1" by (rule gen_fs_touched [OF s1]) simp
  have 2: "touched env g a v t1 t2" by (rule gen_fs_touched [OF s2]) simp
  have 3: "touched env g a v t2 t3" by (rule gen_fs_touched [OF s3]) simp
  from assms s1 s2 s3 have "t' = t1 \<or> t' = t2 \<or> t' = t3"
    by (auto simp: cli_fs_def split: sum.splits)
  then show ?thesis using 1 touched_trans [OF 1 2] touched_trans [OF touched_trans [OF 1 2] 3]
    by auto
qed

lemma get_artifact_content_fs:
  assumes "segment g" "segment a" "segment v"
  shows "(fst (get_artifact_content env url (PStr g) (PStr a) (PStr v) w),
          fs (snd (get_artifact_content env url (PStr g) (PStr a) (PStr v) w)))
           = fetch_fs env url g a v (fs w)"
proof -
  have e: "fs (emit x w0) = fs w0" for x w0 by (simp add: emit_def)
  have c: "(fst (invoke_kuadrant_cli env (PStr g) (PStr a) (PStr v) c w0),
            fs (snd (invoke_kuadrant_cli env (PStr g) (PStr a) (PStr v) c w0)))
            = cli_fs env g a v c (fs w)" if "fs w0 = fs w" for c w0
    using invoke_kuadrant_cli_gen [OF assms, of env c w0] that by simp
  show ?thesis
  proof (cases "registry_content env url (PStr g) (PStr a) (PStr v)")
    case (Inl x)
    then show ?thesis
      by (simp add: get_artifact_content_def get_artifact_content_try_def fetch_fs_def Let_def e)
  next
    case rc: (Inr cont)
    show ?thesis
    proof (cases "registry_state env url (PStr g) (PStr a) (PStr v)")
      case (Inl x)
      then show ?thesis using rc
        by (simp add: get_artifact_content_def get_artifact_content_try_def fetch_fs_def
            Let_def e)
    next
      case rs: (Inr st)
      show ?thesis
      proof (cases "st = ENABLED")
        case False
        then show ?thesis using rc rs
          by (simp add: get_artifact_content_def get_artifact_content_try_def fetch_fs_def
              Let_def e)
      next
        case True
        let ?w0 = "emit (RegistryState url (PStr g) (PStr a) (PStr v))
                     (emit (RegistryContent url (PStr g) (PStr a) (PStr v)) w)"
        obtain o1 w1 where i: "invoke_kuadrant_cli env (PStr g) (PStr a) (PStr v) cont ?w0
                                 = (o1, w1)"
          by (cases "invoke_kuadrant_cli env (PStr g) (PStr a) (PStr v) cont ?w0")
        have "cli_fs env g a v cont (fs w) = (o1, fs w1)"
          using c [of ?w0 cont] i by (simp add: e)
        then show ?thesis using rc rs True i
          by (simp add: get_artifact_content_def get_artifact_content_try_def fetch_fs_def
              Let_def e split: sum.splits)
      qed
    qed
  qed
qed

lemma fetch_fs_again:
  assumes "fetch_fs env url g a v t = (out, t')"
  shows "fetch_fs env url g a v t' = (out, t')"
proof (cases "\<exists>c. registry_content env url (PStr g) (PStr a) (PStr v) = Inr c
                \<and> registry_state env url (PStr g) (PStr a) (PStr v) = Inr ENABLED")
  case False
  then have "t' = t" using assms by (auto simp: fetch_fs_def split: sum.splits if_splits)
  then show ?thesis using assms by simp
next
  case True
  then obtain c where c: "registry_content env url (PStr g) (PStr a) (PStr v) = Inr c"
    "registry_state env url (PStr g) (PStr a) (PStr v) = Inr ENABLED" by blast
  obtain o1 t1 where s: "cli_fs env g a v c t = (o1, t1)" by (cases "cli_fs env g a v c t")
  from assms c s have "t' = t1" by (auto simp: fetch_fs_def split: sum.splits)
  with assms c s cli_fs_again [OF s] show ?thesis by (simp add: fetch_fs_def)
qed

lemma fetch_fs_touched:
  assumes "fetch_fs env url g a v t = (out, t')"
  shows "touched env g a v t t'"
proof (cases "\<exists>c. registry_content env url (PStr g) (PStr a) (PStr v) = Inr c
                \<and> registry_state env url (PStr g) (PStr a) (PStr v) = Inr ENABLED")
  case False
  then have "t' = t" using assms by (auto simp: fetch_fs_def split: sum.splits if_splits)
  then show ?thesis by (simp add: touched_refl)
next
  case True
  then obtain c where c: "registry_content env url (PStr g) (PStr a) (PStr v) = Inr c"
    "registry_state env url (PStr g) (PStr a) (PStr v) = Inr ENABLED" by blast
  obtain o1 t1 where s: "cli_fs env g a v c t = (o1, t1)" by (cases "cli_fs env g a v c t")
  from assms c s have "t' = t1" by (auto simp: fetch_fs_def split: sum.splits)
  with cli_fs_touched [OF s] show ?thesis by simp
qed

lemma get_artifact_content_raises:
  "fst (get_artifact_content env url g a v w) = Inl e \<Longrightarrow> \<not> is_Exception e"
  by (auto simp: get_artifact_content_def split: prod.splits sum.splits if_splits)

lemma process_message_created:
  assumes "segment g" "segment a" "segment v"
    and "decode_payload env m = Inr (PDict d)"
    and "map_of d ''eventType'' = Some (PStr ''ARTIFACT_VERSION_CREATED'')"
    and "dict_get d ''groupId'' (PStr ''default'') = PStr g"
    and "map_of d ''artifactId'' = Some (PStr a)"
    and "map_of d ''version'' = Some (PStr v)"
  shows "(fst (process_message env url m w), fs (snd (process_message env url m w)))
           = fetch_fs env url g a v (fs w)"
proof -
  let ?w0 = "emit (Print (LogVersionCreated (PStr ''ARTIFACT_VERSION_CREATED'') (PStr a)
                (PStr v))) w"
  let ?gac = "get_artifact_content env url (PStr g) (PStr a) (PStr v) ?w0"
  have d: "dispatch env url (PDict d) w = ?gac"
    using assms(5-8) by (simp add: dispatch_def Let_def) (simp add: dict_get_def)
  have "process_message env url m w = ?gac"
  proof (cases "fst ?gac")
    case (Inl e)
    then have "\<not> is_Exception e" by (rule get_artifact_content_raises)
    then have "\<not> is_JSONDecodeError e" "\<not> is_KeyError e" by (cases e; simp)+
    then show ?thesis using Inl
      by (cases ?gac) (simp add: process_message_def assms(4) d)
  next
    case (Inr u)
    then show ?thesis by (cases ?gac) (simp add: process_message_def assms(4) d)
  qed
  then show ?thesis
    using get_artifact_content_fs [OF assms(1-3), of env url ?w0] by (simp add: emit_def)
qed

text \<open>
  Claim C8, as amended. For a group, an artifact identifier and a version that are
  single path segments, the file of a mode is
  \<open>root/group/artifactId/version/{group}_{artifactId}_v{version}_{mode}.yaml\<close>, and
  handling the same \<open>VersionCreated\<close> event twice (the registry and the tool answering
  the same) gives the same result and leaves the file system after the second time as it
  was after the first; what the first time changed is only directories on the way to the
  version directory and the files of the three modes.
\<close>

theorem replay_is_idempotent:
  assumes "segment g" "segment a" "segment v"
    and "decode_payload env m = Inr (PDict d)"
    and "map_of d ''eventType'' = Some (PStr ''ARTIFACT_VERSION_CREATED'')"
    and "dict_get d ''groupId'' (PStr ''default'') = PStr g"
    and "map_of d ''artifactId'' = Some (PStr a)"
    and "map_of d ''version'' = Some (PStr v)"
    and "process_message env url m w = (r1, w1)"
    and "process_message env url m w1 = (r2, w2)"
  shows "fs w2 = fs w1 \<and> r2 = r1
       \<and> touched env g a v (fs w) (fs w1)
       \<and> (\<forall>mode \<in> {''httproute'', ''authpolicy'', ''ratelimiting_policy''}.
            resolve (getcwd env) (resource_path env g a v mode)
              = output_root env @ [g, a, v, resource_name g a v mode])"
proof -
  note pm = process_message_created [OF assms(1-8)]
  have 1: "fetch_fs env url g a v (fs w) = (r1, fs w1)"
    using pm [of url w] assms(9) by simp
  have 2: "fetch_fs env url g a v (fs w1) = (r2, fs w2)"
    using pm [of url w1] assms(10) by simp
  from fetch_fs_again [OF 1] 2 have "fs w2 = fs w1" "r2 = r1" by simp_all
  moreover have "touched env g a v (fs w) (fs w1)" by (rule fetch_fs_touched [OF 1])
  moreover have "resolve (getcwd env) (resource_path env g a v mode)
              = output_root env @ [g, a, v, resource_name g a v mode]"
    if "mode \<in> {''httproute'', ''authpolicy'', ''ratelimiting_policy''}" for mode
    unfolding resource_path_def
    by (rule resolve_file [OF assms(1-3)]) (use that in auto)
  ultimately show ?thesis by blast
qed

theorem replay_is_idempotent_witness:
  "segment ''shop'' \<and> segment ''orders-api'' \<and> segment ''1''
   \<and> fs (snd (process_message sample_env ''registry'' (sample_msg ''created'')
          (snd (process_message sample_env ''registry'' (sample_msg ''created'') empty_world))))
       = fs (snd (process_message sample_env ''registry'' (sample_msg ''created'') empty_world))
   \<and> fs (snd (process_message sample_env ''registry'' (sample_msg ''created'') empty_world))
        (orders_dir @ [''1'', ''shop_orders-api_v1_authpolicy.yaml''])
       = Some (File ''kind: authpolicy; '')
   \<and> resolve (getcwd sample_env)
        (resource_path sample_env ''shop'' ''orders-api'' ''1'' ''authpolicy'')
       = orders_dir @ [''1'', ''shop_orders-api_v1_authpolicy.yaml'']"
proof -
  let ?d = "[(''eventType'', PStr ''ARTIFACT_VERSION_CREATED''),
             (''artifactId'', PStr ''orders-api''), (''version'', PStr ''1''),
             (''groupId'', PStr ''shop'')]"
  let ?pm = "process_message sample_env ''registry'' (sample_msg ''created'')"
  have seg: "segment ''shop''" "segment ''orders-api''" "segment ''1''"
    by (simp_all add: segment_def)
  have dec: "decode_payload sample_env (sample_msg ''created'') = Inr (PDict ?d)"
    by (simp add: decode_payload_def sample_defs)
  have ev: "map_of ?d ''eventType'' = Some (PStr ''ARTIFACT_VERSION_CREATED'')" by simp
  have g: "dict_get ?d ''groupId'' (PStr ''default'') = PStr ''shop''"
    by (simp add: dict_get_def)
  have a: "map_of ?d ''artifactId'' = Some (PStr ''orders-api'')" by simp
  have v: "map_of ?d ''version'' = Some (PStr ''1'')" by simp
  have written: "fs (snd (?pm empty_world))
        (orders_dir @ [''1'', ''shop_orders-api_v1_authpolicy.yaml''])
       = Some (File ''kind: authpolicy; '')"
    by code_simp
  have name: "output_root sample_env
        @ [''shop'', ''orders-api'', ''1'', resource_name ''shop'' ''orders-api'' ''1'' ''authpolicy'']
      = orders_dir @ [''1'', ''shop_orders-api_v1_authpolicy.yaml'']"
    by code_simp
  from replay_is_idempotent [OF seg dec ev g a v surjective_pairing surjective_pairing,
      where url = "''registry''" and w = empty_world]
  have "fs (snd (?pm (snd (?pm empty_world)))) = fs (snd (?pm empty_world))"
    and "resolve (getcwd sample_env)
        (resource_path sample_env ''shop'' ''orders-api'' ''1'' ''authpolicy'')
       = output_root sample_env
        @ [''shop'', ''orders-api'', ''1'', resource_name ''shop'' ''orders-api'' ''1'' ''authpolicy'']"
    by simp_all
  then show ?thesis using seg written name by simp
qed

text \<open>
  Claim C8 as stated fails for identifiers that are not path segments: with the artifact
  identifier \<open>/x\<close>, \<^verbatim>\<open>os.path.join\<close> drops the output root and the group, the path
  of the file is \<open>/x/1/shop_/x_v1_httproute.yaml\<close>, the directory \<open>/x/1\<close> is made
  outside the output tree and nothing is made under it.
\<close>

theorem absolute_identifier_leaves_the_tree:
  "resolve (getcwd sample_env) (resource_path sample_env ''shop'' ''/x'' ''1'' ''httproute'')
     = [''x'', ''1'', ''shop_'', ''x_v1_httproute.yaml'']
   \<and> fs (snd (process_message sample_env ''registry'' (sample_msg ''created-abs'')
          empty_world)) [''x'', ''1''] = Some Dir
   \<and> fs (snd (process_message sample_env ''registry'' (sample_msg ''created-abs'')
          empty_world)) (output_root sample_env @ [''shop'']) = None"
  by code_simp

end
